theory Spec2Isabelle
  imports Main "HOL-Library.Sublist"
begin

section \<open>Strings, trimming and the e-mail pattern\<close>

text \<open>
  A \<^typ>\<open>char\<close> stands for one code unit of a script string whose value fits in a byte.
  In that range the white space of \<^verbatim>\<open>String.prototype.trim\<close> and of the class
  \<^verbatim>\<open>\s\<close> is TAB, LF, VT, FF, CR, SPACE and NO-BREAK SPACE.
  The three literals of \<^verbatim>\<open>script.js\<close> that lie outside ASCII (two icons and a dash) are
  only ever stored and compared, so they are written down as their UTF-8 bytes.
\<close>

definition is_space :: "char \<Rightarrow> bool" where
  "is_space c \<longleftrightarrow>
     c = CHR 0x09 \<or> c = CHR 0x0A \<or> c = CHR 0x0B \<or> c = CHR 0x0C \<or> c = CHR 0x0D \<or>
     c = CHR 0x20 \<or> c = CHR 0xA0"

definition trim :: "string \<Rightarrow> string" where
  "trim s = rev (dropWhile is_space (rev (dropWhile is_space s)))"

definition moon_icon :: string where
  "moon_icon = [CHR 0xF0, CHR 0x9F, CHR 0x8C, CHR 0x99]"

definition sun_icon :: string where
  "sun_icon = [CHR 0xE2, CHR 0x98, CHR 0x80, CHR 0xEF, CHR 0xB8, CHR 0x8F]"

definition msg_fill :: string where
  "msg_fill = ''Please fill in all fields.''"

definition msg_email :: string where
  "msg_email = ''Please enter a valid email address.''"

definition msg_thanks :: string where
  "msg_thanks = ''Thanks! Your message has been received '' @ [CHR 0xE2, CHR 0x80, CHR 0x94]
                @ '' we will reply soon.''"

text \<open>
  Regular expressions, as far as \<^verbatim>\<open>/\S+@\S+\.\S+/\<close> needs them, matched by derivatives.
  \<open>AnyChar\<close> does not occur in the source pattern: it serves the unanchored search of
  \<^verbatim>\<open>RegExp.prototype.test\<close>, which accepts a match starting and ending anywhere.
\<close>

datatype rx = Fail | Eps | NonSpace | AnyChar | Lit char | Seq rx rx | Alt rx rx | Star rx

definition Plus :: "rx \<Rightarrow> rx" where
  "Plus r = Seq r (Star r)"

fun nullable :: "rx \<Rightarrow> bool" where
  "nullable Fail = False"
| "nullable Eps = True"
| "nullable NonSpace = False"
| "nullable AnyChar = False"
| "nullable (Lit c) = False"
| "nullable (Seq r q) = (nullable r \<and> nullable q)"
| "nullable (Alt r q) = (nullable r \<or> nullable q)"
| "nullable (Star r) = True"

fun deriv :: "char \<Rightarrow> rx \<Rightarrow> rx" where
  "deriv c Fail = Fail"
| "deriv c Eps = Fail"
| "deriv c NonSpace = (if is_space c then Fail else Eps)"
| "deriv c AnyChar = Eps"
| "deriv c (Lit d) = (if c = d then Eps else Fail)"
| "deriv c (Seq r q) =
     (if nullable r then Alt (Seq (deriv c r) q) (deriv c q) else Seq (deriv c r) q)"
| "deriv c (Alt r q) = Alt (deriv c r) (deriv c q)"
| "deriv c (Star r) = Seq (deriv c r) (Star r)"

fun rx_matches :: "rx \<Rightarrow> string \<Rightarrow> bool" where
  "rx_matches r [] = nullable r"
| "rx_matches r (c # cs) = rx_matches (deriv c r) cs"

definition rx_test :: "rx \<Rightarrow> string \<Rightarrow> bool" where
  "rx_test r s = rx_matches (Seq (Star AnyChar) (Seq r (Star AnyChar))) s"

definition email_re :: rx where
  "email_re =
     Seq (Plus NonSpace) (Seq (Lit CHR ''@'') (Seq (Plus NonSpace)
       (Seq (Lit CHR ''.'') (Plus NonSpace))))"

text \<open>
  What a pattern means: the set of strings it matches from its first to its last
  character. The matcher above is checked against it below.
\<close>

inductive_set star :: "string set \<Rightarrow> string set" for A :: "string set" where
  star_empty: "[] \<in> star A"
| star_more: "u \<in> A \<Longrightarrow> v \<in> star A \<Longrightarrow> u @ v \<in> star A"

fun lang :: "rx \<Rightarrow> string set" where
  "lang Fail = {}"
| "lang Eps = {[]}"
| "lang NonSpace = {[c] | c. \<not> is_space c}"
| "lang AnyChar = {[c] | c. True}"
| "lang (Lit d) = {[d]}"
| "lang (Seq r q) = {u @ v | u v. u \<in> lang r \<and> v \<in> lang q}"
| "lang (Alt r q) = lang r \<union> lang q"
| "lang (Star r) = star (lang r)"

section \<open>The page\<close>

datatype error = TypeError | CouldNotLoadNavbar | FetchFailed | BodyReadFailed

datatype fetch_outcome = Rejected | Responded bool "string option"

datatype feature = FadeOnScroll | Lightbox | MenuFilter | ContactForm | LazyImages

datatype task = FallbackInit | ClearFeedback

datatype menu_listener = MainListener | TrailingListener

datatype nav_sel = NavAbsent | NavIsMain | NavOther "string list"

record menu_toggle_el =
  aria_expanded :: "string option"
  click_listeners :: "menu_listener list"

record theme_toggle_el =
  textContent :: string
  theme_listeners :: nat

record link_el =
  href :: "string option"
  link_classList :: "string list"

text \<open>
  The elements that the header code looks up. \<open>mainNav\<close> is the class list of
  \<^verbatim>\<open>#main-nav\<close>; \<open>navList\<close> is what \<^verbatim>\<open>querySelector('.nav-list')\<close> finds, which may
  be that same element, another one, or nothing. \<open>header\<close> is the class list of
  \<^verbatim>\<open>.header\<close> or else \<^verbatim>\<open>#site-header\<close>; \<open>links\<close> are the \<^verbatim>\<open>.nav-list a\<close> anchors.
\<close>

record nav =
  header :: "string list option"
  menuToggle :: "menu_toggle_el option"
  mainNav :: "string list option"
  navList :: nav_sel
  themeToggle :: "theme_toggle_el option"
  links :: "link_el list"

record chip =
  chip_classList :: "string list"
  data_filter :: "string option"
  chip_listeners :: nat

record item =
  data_category :: "string option"
  display :: string

record field =
  fvalue :: string
  defaultValue :: string

record contact_form =
  name_field :: field
  email_field :: field
  message_field :: field
  submit_listeners :: nat

text \<open>
  The document, the window and the browser state the script touches.
  \<open>container\<close> is the \<^verbatim>\<open>innerHTML\<close> of \<^verbatim>\<open>#navbar-container\<close>, \<open>feedback\<close> the text of
  \<^verbatim>\<open>#formFeedback\<close> (\<open>None\<close> where the element is missing), \<open>data_theme\<close> the attribute
  of the root element, \<open>storage\<close> the local storage, which is taken to be readable
  and writable. The chips, menu items, form and
  feedback element lie outside the navbar container, so writing the container leaves
  them alone. \<open>calls\<close> is a trace of the feature initializers entered, \<open>fetches\<close> counts
  the requests sent; neither is read by the script.
\<close>

record page =
  nav :: nav
  container :: "string option"
  data_theme :: "string option"
  storage :: "string \<rightharpoonup> string"
  pathname :: string
  chips :: "chip list"
  items :: "item list"
  form :: "contact_form option"
  feedback :: "string option"
  fade_targets :: nat
  observers :: "nat list"
  lightbox_root :: bool
  doc_click_listeners :: nat
  scroll_listeners :: nat
  dcl_listeners :: nat
  timers :: "(nat \<times> task) list"
  console :: "error list"
  uncaught :: "error list"
  fetches :: nat
  fetch_pending :: bool
  calls :: "feature list"

section \<open>Class lists\<close>

definition cl_remove :: "string \<Rightarrow> string list \<Rightarrow> string list" where
  "cl_remove t cs = filter (\<lambda>c. c \<noteq> t) cs"

definition cl_add :: "string \<Rightarrow> string list \<Rightarrow> string list" where
  "cl_add t cs = (if t \<in> set cs then cs else cs @ [t])"

definition cl_toggle :: "string \<Rightarrow> string list \<Rightarrow> string list" where
  "cl_toggle t cs = (if t \<in> set cs then cl_remove t cs else cs @ [t])"

definition cl_force :: "string \<Rightarrow> bool \<Rightarrow> string list \<Rightarrow> string list" where
  "cl_force t b cs = (if b then cl_add t cs else cl_remove t cs)"

section \<open>Header behaviour: \<^verbatim>\<open>setupNavbarFeatures\<close> and its handlers\<close>

text \<open>
  \<^verbatim>\<open>location.pathname.endsWith(link.getAttribute('href'))\<close>: a missing attribute is
  \<^verbatim>\<open>null\<close>, which \<^verbatim>\<open>endsWith\<close> converts to the text \<^verbatim>\<open>null\<close>.
\<close>

definition highlight_link :: "string \<Rightarrow> link_el \<Rightarrow> link_el" where
  "highlight_link path l =
     (if suffix (case href l of None \<Rightarrow> ''null'' | Some h \<Rightarrow> h) path
      then l\<lparr>link_classList := cl_add ''active'' (link_classList l)\<rparr> else l)"

definition highlight_links :: "page \<Rightarrow> page" where
  "highlight_links s = s\<lparr>nav := (nav s)\<lparr>links := map (highlight_link (pathname s)) (links (nav s))\<rparr>\<rparr>"

definition set_icon :: "string \<Rightarrow> page \<Rightarrow> page" where
  "set_icon i s =
     s\<lparr>nav := (nav s)\<lparr>themeToggle := map_option (\<lambda>t. t\<lparr>textContent := i\<rparr>) (themeToggle (nav s))\<rparr>\<rparr>"

text \<open>The scroll listener: \<^verbatim>\<open>header.classList.toggle('scrolled', window.scrollY > 44)\<close>.\<close>

definition scroll_handler :: "nat \<Rightarrow> page \<Rightarrow> page" where
  "scroll_handler y s =
     (case header (nav s) of
        None \<Rightarrow> s
      | Some cs \<Rightarrow> s\<lparr>nav := (nav s)\<lparr>header := Some (cl_force ''scrolled'' (44 < y) cs)\<rparr>\<rparr>)"

text \<open>
  The click listener of lines 45-49. It is attached to an existing button and closes over
  an existing \<^verbatim>\<open>#main-nav\<close>.
\<close>

definition flip_expanded :: "menu_toggle_el \<Rightarrow> menu_toggle_el" where
  "flip_expanded m =
     (let expanded = (aria_expanded m = Some ''true'')
      in m\<lparr>aria_expanded := Some (if \<not> expanded then ''true'' else ''false'')\<rparr>)"

definition menu_click_main :: "page \<Rightarrow> page" where
  "menu_click_main s =
     s\<lparr>nav := (nav s)\<lparr>menuToggle := map_option flip_expanded (menuToggle (nav s)),
                      mainNav := map_option (cl_toggle ''open'') (mainNav (nav s))\<rparr>\<rparr>"

text \<open>The click listener of lines 216-220, which toggles \<^verbatim>\<open>show\<close> on \<^verbatim>\<open>.nav-list\<close>.\<close>

definition menu_click_trailing :: "page \<Rightarrow> page" where
  "menu_click_trailing s =
     (let n = (nav s)\<lparr>menuToggle := map_option flip_expanded (menuToggle (nav s))\<rparr>
      in s\<lparr>nav :=
           (case navList n of
              NavAbsent \<Rightarrow> n
            | NavIsMain \<Rightarrow> n\<lparr>mainNav := map_option (cl_toggle ''show'') (mainNav n)\<rparr>
            | NavOther cs \<Rightarrow> n\<lparr>navList := NavOther (cl_toggle ''show'' cs)\<rparr>)\<rparr>)"

fun menu_listener_run :: "menu_listener \<Rightarrow> page \<Rightarrow> page" where
  "menu_listener_run MainListener s = menu_click_main s"
| "menu_listener_run TrailingListener s = menu_click_trailing s"

text \<open>One click on the menu button runs its listeners in the order they were added.\<close>

definition click_menuToggle :: "page \<Rightarrow> page" where
  "click_menuToggle s =
     (case menuToggle (nav s) of
        None \<Rightarrow> s
      | Some m \<Rightarrow> fold menu_listener_run (click_listeners m) s)"

text \<open>The click listener of lines 54-65.\<close>

definition theme_click :: "page \<Rightarrow> page" where
  "theme_click s =
     (let isDark = (data_theme s = Some ''dark'')
      in if isDark
         then set_icon moon_icon
                (s\<lparr>data_theme := None, storage := (storage s)(''pgc-theme'' := None)\<rparr>)
         else set_icon sun_icon
                (s\<lparr>data_theme := Some ''dark'',
                   storage := (storage s)(''pgc-theme'' \<mapsto> ''dark'')\<rparr>))"

definition click_themeToggle :: "page \<Rightarrow> page" where
  "click_themeToggle s =
     (case themeToggle (nav s) of
        None \<Rightarrow> s
      | Some t \<Rightarrow> (theme_click ^^ theme_listeners t) s)"

definition add_menu_listener :: "menu_listener \<Rightarrow> page \<Rightarrow> page" where
  "add_menu_listener l s =
     s\<lparr>nav := (nav s)\<lparr>menuToggle :=
          map_option (\<lambda>m. m\<lparr>click_listeners := click_listeners m @ [l]\<rparr>) (menuToggle (nav s))\<rparr>\<rparr>"

definition add_theme_listener :: "page \<Rightarrow> page" where
  "add_theme_listener s =
     s\<lparr>nav := (nav s)\<lparr>themeToggle :=
          map_option (\<lambda>t. t\<lparr>theme_listeners := theme_listeners t + 1\<rparr>) (themeToggle (nav s))\<rparr>\<rparr>"

definition setupNavbarFeatures :: "page \<Rightarrow> page" where
  "setupNavbarFeatures s =
     (let saved = storage s ''pgc-theme'';
          s1 = (if saved = Some ''dark''
                then set_icon sun_icon (s\<lparr>data_theme := Some ''dark''\<rparr>)
                else set_icon moon_icon s);
          s2 = s1\<lparr>scroll_listeners := scroll_listeners s1 + 1\<rparr>;
          s3 = (if menuToggle (nav s2) \<noteq> None \<and> mainNav (nav s2) \<noteq> None
                then add_menu_listener MainListener s2 else s2);
          s4 = (if themeToggle (nav s3) \<noteq> None then add_theme_listener s3 else s3)
      in highlight_links s4)"

text \<open>The statements after the module, lines 212-228.\<close>

definition navList_found :: "nav \<Rightarrow> bool" where
  "navList_found n =
     (case navList n of NavAbsent \<Rightarrow> False | NavIsMain \<Rightarrow> mainNav n \<noteq> None | NavOther cs \<Rightarrow> True)"

definition trailing_block :: "page \<Rightarrow> page" where
  "trailing_block s =
     (let s1 = (if menuToggle (nav s) \<noteq> None \<and> navList_found (nav s)
                then add_menu_listener TrailingListener s else s)
      in highlight_links s1)"

section \<open>Menu filter\<close>

definition show_item :: "string option \<Rightarrow> item \<Rightarrow> item" where
  "show_item f it =
     (if f = Some ''all'' then it\<lparr>display := ''''\<rparr>
      else it\<lparr>display := (if data_category it = f then '''' else ''none'')\<rparr>)"

text \<open>
  The listener of the chip at position \<open>i\<close> of the chip list (lines 140-148). It closes
  over the chips and items that \<^verbatim>\<open>setupMenuFilter\<close> found; the script never adds or
  removes one, so they are the lists of the page. A missing \<^verbatim>\<open>data-filter\<close> or
  \<^verbatim>\<open>data-category\<close> reads as \<^verbatim>\<open>undefined\<close>, here \<open>None\<close>. A position beyond the list
  is no chip, so no listener runs.
\<close>

definition chip_click :: "nat \<Rightarrow> page \<Rightarrow> page" where
  "chip_click i s =
     (if i < length (chips s) then
        (let cleared = map (\<lambda>b. b\<lparr>chip_classList := cl_remove ''active'' (chip_classList b)\<rparr>) (chips s);
             btn = cleared ! i;
             btn' = btn\<lparr>chip_classList := cl_add ''active'' (chip_classList btn)\<rparr>;
             f = data_filter btn'
         in s\<lparr>chips := cleared[i := btn'], items := map (show_item f) (items s)\<rparr>)
      else s)"

definition click_chip :: "nat \<Rightarrow> page \<Rightarrow> page" where
  "click_chip i s =
     (if i < length (chips s) then (chip_click i ^^ chip_listeners (chips s ! i)) s else s)"

definition setupMenuFilter :: "page \<Rightarrow> page" where
  "setupMenuFilter s =
     (let s0 = s\<lparr>calls := calls s @ [MenuFilter]\<rparr>
      in if chips s0 = [] \<or> items s0 = [] then s0
         else s0\<lparr>chips := map (\<lambda>b. b\<lparr>chip_listeners := chip_listeners b + 1\<rparr>) (chips s0)\<rparr>)"

section \<open>Contact form\<close>

definition form_reset :: "contact_form \<Rightarrow> contact_form" where
  "form_reset f =
     f\<lparr>name_field := (name_field f)\<lparr>fvalue := defaultValue (name_field f)\<rparr>,
       email_field := (email_field f)\<lparr>fvalue := defaultValue (email_field f)\<rparr>,
       message_field := (message_field f)\<lparr>fvalue := defaultValue (message_field f)\<rparr>\<rparr>"

text \<open>
  The submit listener (lines 157-176). \<^verbatim>\<open>feedback\<close> was looked up without a guard, so
  where the element is missing the first write to \<^verbatim>\<open>feedback.textContent\<close> throws.
  Each throw comes before any other write, so \<open>Inl\<close> leaves the page as it was.
  Without a form there is no listener and nothing runs. The form has its three named
  controls; \<^verbatim>\<open>form.reset()\<close> gives each control its default value back.
  \<^verbatim>\<open>e.preventDefault()\<close> acts on the event alone and has no counterpart here.
\<close>

definition write_feedback :: "string \<Rightarrow> page \<Rightarrow> error + page" where
  "write_feedback t s =
     (case feedback s of None \<Rightarrow> Inl TypeError | Some old \<Rightarrow> Inr (s\<lparr>feedback := Some t\<rparr>))"

definition submit_handler :: "page \<Rightarrow> error + page" where
  "submit_handler s =
     (case form s of
        None \<Rightarrow> Inr s
      | Some f \<Rightarrow>
         (let name = trim (fvalue (name_field f));
              email = trim (fvalue (email_field f));
              message = trim (fvalue (message_field f))
          in if name = [] \<or> email = [] \<or> message = [] then write_feedback msg_fill s
             else if \<not> rx_test email_re email then write_feedback msg_email s
             else (case write_feedback msg_thanks s of
                     Inl e \<Rightarrow> Inl e
                   | Inr s1 \<Rightarrow>
                       Inr (s1\<lparr>form := Some (form_reset f),
                              timers := timers s1 @ [(6000, ClearFeedback)]\<rparr>))))"

text \<open>
  A submit event runs every registered listener; an exception thrown by one of them is
  reported and the next listener still runs.
\<close>

definition submit_once :: "page \<Rightarrow> page" where
  "submit_once s =
     (case submit_handler s of
        Inl e \<Rightarrow> s\<lparr>uncaught := uncaught s @ [e]\<rparr>
      | Inr s' \<Rightarrow> s')"

definition submit_event :: "page \<Rightarrow> page" where
  "submit_event s =
     (case form s of None \<Rightarrow> s | Some f \<Rightarrow> (submit_once ^^ submit_listeners f) s)"

definition setupContactForm :: "page \<Rightarrow> page" where
  "setupContactForm s =
     (let s0 = s\<lparr>calls := calls s @ [ContactForm]\<rparr>
      in case form s0 of
           None \<Rightarrow> s0
         | Some f \<Rightarrow> s0\<lparr>form := Some (f\<lparr>submit_listeners := submit_listeners f + 1\<rparr>)\<rparr>)"

section \<open>The other feature initializers\<close>

text \<open>One observer is created when there is something to fade in; it observes every target.\<close>

definition setupFadeOnScroll :: "page \<Rightarrow> page" where
  "setupFadeOnScroll s =
     (let s0 = s\<lparr>calls := calls s @ [FadeOnScroll]\<rparr>
      in if fade_targets s0 = 0 then s0
         else s0\<lparr>observers := observers s0 @ [fade_targets s0]\<rparr>)"

definition setupLightbox :: "page \<Rightarrow> page" where
  "setupLightbox s =
     s\<lparr>calls := calls s @ [Lightbox],
       lightbox_root := True,
       doc_click_listeners := doc_click_listeners s + 1\<rparr>"

definition setupLazyImages :: "page \<Rightarrow> page" where
  "setupLazyImages s = s\<lparr>calls := calls s @ [LazyImages]\<rparr>"

text \<open>The five calls that both paths of \<^verbatim>\<open>init\<close> make, in their order.\<close>

definition features :: "page \<Rightarrow> page" where
  "features s =
     setupLazyImages (setupContactForm (setupMenuFilter (setupLightbox (setupFadeOnScroll s))))"

definition five :: "feature list" where
  "five = [FadeOnScroll, Lightbox, MenuFilter, ContactForm, LazyImages]"

section \<open>Loading the navbar, \<^verbatim>\<open>init\<close> and the event loop\<close>

text \<open>
  \<^verbatim>\<open>loadNavbar\<close> sends its request when it is called and goes on when the request
  settles. \<open>parse\<close> is the browser's part of the \<^verbatim>\<open>innerHTML\<close> write: the header
  elements found in the document once the fragment has replaced the container's content.
  \<open>loadNavbar_try\<close> is the body of the \<^verbatim>\<open>try\<close> block, \<open>Inl\<close> a throw;
  \<open>loadNavbar_settle\<close> is the whole function, \<open>Inl\<close> a rejected promise.
\<close>

definition loadNavbar_start :: "page \<Rightarrow> page" where
  "loadNavbar_start s = s\<lparr>fetches := fetches s + 1, fetch_pending := True\<rparr>"

definition loadNavbar_try :: "(string \<Rightarrow> nav \<Rightarrow> nav) \<Rightarrow> fetch_outcome \<Rightarrow> page \<Rightarrow> error + page" where
  "loadNavbar_try parse out s =
     (case out of
        Rejected \<Rightarrow> Inl FetchFailed
      | Responded ok body \<Rightarrow>
          if \<not> ok then Inl CouldNotLoadNavbar
          else (case body of
                  None \<Rightarrow> Inl BodyReadFailed
                | Some html \<Rightarrow>
                    (case container s of
                       None \<Rightarrow> Inl TypeError
                     | Some old \<Rightarrow>
                         Inr (setupNavbarFeatures
                               (s\<lparr>container := Some html, nav := parse html (nav s)\<rparr>)))))"

definition loadNavbar_settle :: "(string \<Rightarrow> nav \<Rightarrow> nav) \<Rightarrow> fetch_outcome \<Rightarrow> page \<Rightarrow> error + page" where
  "loadNavbar_settle parse out s =
     (case loadNavbar_try parse out s of
        Inl err \<Rightarrow> Inr (s\<lparr>console := console s @ [err]\<rparr>)
      | Inr s' \<Rightarrow> Inr s')"

text \<open>
  The request has failed when \<^verbatim>\<open>fetch\<close> rejects or the response is not \<^verbatim>\<open>ok\<close>;
  \<open>failure_error\<close> is what is thrown then.
\<close>

definition navbar_fetch_failed :: "fetch_outcome \<Rightarrow> bool" where
  "navbar_fetch_failed out = (case out of Rejected \<Rightarrow> True | Responded ok body \<Rightarrow> \<not> ok)"

definition failure_error :: "fetch_outcome \<Rightarrow> error" where
  "failure_error out = (case out of Rejected \<Rightarrow> FetchFailed | Responded ok body \<Rightarrow> CouldNotLoadNavbar)"

text \<open>
  The continuation \<^verbatim>\<open>.then(() => { ... })\<close> of \<^verbatim>\<open>init\<close> runs when the promise is
  fulfilled; there is no rejection handler.
\<close>

definition fetch_settled :: "(string \<Rightarrow> nav \<Rightarrow> nav) \<Rightarrow> fetch_outcome \<Rightarrow> page \<Rightarrow> page" where
  "fetch_settled parse out s =
     (if fetch_pending s then
        (case loadNavbar_settle parse out (s\<lparr>fetch_pending := False\<rparr>) of
           Inl e \<Rightarrow> s\<lparr>fetch_pending := False, uncaught := uncaught s @ [e]\<rparr>
         | Inr s' \<Rightarrow> features s')
      else s)"

definition init :: "page \<Rightarrow> page" where
  "init s = (let s1 = loadNavbar_start s in s1\<lparr>dcl_listeners := dcl_listeners s1 + 1\<rparr>)"

definition script :: "page \<Rightarrow> page" where
  "script s = trailing_block (init s)"

text \<open>Timers: \<^verbatim>\<open>setTimeout\<close> appends a task with its delay in milliseconds.\<close>

definition set_timeout :: "nat \<Rightarrow> task \<Rightarrow> page \<Rightarrow> page" where
  "set_timeout d k s = s\<lparr>timers := timers s @ [(d, k)]\<rparr>"

definition dom_content_loaded :: "page \<Rightarrow> page" where
  "dom_content_loaded s = (set_timeout 90 FallbackInit ^^ dcl_listeners s) s"

fun run_task :: "task \<Rightarrow> page \<Rightarrow> page" where
  "run_task FallbackInit s = features s"
| "run_task ClearFeedback s = s\<lparr>feedback := map_option (\<lambda>old. '''') (feedback s)\<rparr>"

text \<open>
  Letting \<open>d\<close> milliseconds pass runs the tasks that are due, the earliest first and
  tasks of equal delay in the order they were set; the others move \<open>d\<close> closer.
  No task of this script sets a timer.
\<close>

definition elapse :: "nat \<Rightarrow> page \<Rightarrow> page" where
  "elapse d s =
     (let due = sort_key fst (filter (\<lambda>p. fst p \<le> d) (timers s));
          later = map (\<lambda>p. (fst p - d, snd p)) (filter (\<lambda>p. \<not> fst p \<le> d) (timers s))
      in fold (\<lambda>p. run_task (snd p)) due (s\<lparr>timers := later\<rparr>))"

datatype event =
    FetchSettled fetch_outcome
  | DOMContentLoaded
  | Elapse nat
  | Scroll nat
  | ClickMenuToggle
  | ClickThemeToggle
  | ClickChip nat
  | Submit

fun step :: "(string \<Rightarrow> nav \<Rightarrow> nav) \<Rightarrow> event \<Rightarrow> page \<Rightarrow> page" where
  "step parse (FetchSettled out) s = fetch_settled parse out s"
| "step parse DOMContentLoaded s = dom_content_loaded s"
| "step parse (Elapse d) s = elapse d s"
| "step parse (Scroll y) s = (scroll_handler y ^^ scroll_listeners s) s"
| "step parse ClickMenuToggle s = click_menuToggle s"
| "step parse ClickThemeToggle s = click_themeToggle s"
| "step parse (ClickChip i) s = click_chip i s"
| "step parse Submit s = submit_event s"

definition run :: "(string \<Rightarrow> nav \<Rightarrow> nav) \<Rightarrow> event list \<Rightarrow> page \<Rightarrow> page" where
  "run parse evs s = fold (step parse) evs s"

text \<open>
  The orders in which the settling of the request, the document becoming ready and the
  90 ms after that can follow the script.
\<close>

definition settle_orders :: "fetch_outcome \<Rightarrow> event list list" where
  "settle_orders out =
     [[FetchSettled out, DOMContentLoaded, Elapse 90],
      [DOMContentLoaded, FetchSettled out, Elapse 90],
      [DOMContentLoaded, Elapse 90, FetchSettled out]]"

section \<open>Example pages\<close>

text \<open>
  Concrete pages and forms on which the properties below are run.
\<close>

definition blank_nav :: nav where
  "blank_nav = \<lparr>header = None, menuToggle = None, mainNav = None, navList = NavAbsent,
                 themeToggle = None, links = []\<rparr>"

definition blank_page :: page where
  "blank_page =
     \<lparr>nav = blank_nav, container = Some [], data_theme = None, storage = Map.empty,
      pathname = ''/index.html'', chips = [], items = [], form = None, feedback = None,
      fade_targets = 0, observers = [], lightbox_root = False, doc_click_listeners = 0,
      scroll_listeners = 0, dcl_listeners = 0, timers = [], console = [], uncaught = [],
      fetches = 0, fetch_pending = False, calls = []\<rparr>"

definition filled_form :: "string \<Rightarrow> string \<Rightarrow> string \<Rightarrow> contact_form" where
  "filled_form n e m =
     \<lparr>name_field = \<lparr>fvalue = n, defaultValue = ''''\<rparr>,
      email_field = \<lparr>fvalue = e, defaultValue = ''''\<rparr>,
      message_field = \<lparr>fvalue = m, defaultValue = ''''\<rparr>,
      submit_listeners = 1\<rparr>"

definition form_page :: "string \<Rightarrow> string \<Rightarrow> string \<Rightarrow> page" where
  "form_page n e m = blank_page\<lparr>form := Some (filled_form n e m), feedback := Some ''''\<rparr>"

definition moon_button :: theme_toggle_el where
  "moon_button = \<lparr>textContent = moon_icon, theme_listeners = 1\<rparr>"

definition light_page :: page where
  "light_page = blank_page\<lparr>nav := blank_nav\<lparr>themeToggle := Some moon_button\<rparr>\<rparr>"

definition stale_flag_page :: page where
  "stale_flag_page = light_page\<lparr>storage := [''pgc-theme'' \<mapsto> ''dark'']\<rparr>"

definition menu_page :: page where
  "menu_page =
     blank_page\<lparr>chips :=
         [\<lparr>chip_classList = [''chip'', ''active''], data_filter = Some ''all'', chip_listeners = 0\<rparr>,
          \<lparr>chip_classList = [''chip''], data_filter = Some ''drinks'', chip_listeners = 0\<rparr>],
       items :=
         [\<lparr>data_category = Some ''drinks'', display = []\<rparr>,
          \<lparr>data_category = Some ''food'', display = []\<rparr>]\<rparr>"

definition static_header_page :: page where
  "static_header_page =
     blank_page\<lparr>nav := blank_nav
        \<lparr>menuToggle := Some \<lparr>aria_expanded = Some ''false'', click_listeners = []\<rparr>,
         mainNav := Some [''nav-list''],
         navList := NavIsMain\<rparr>\<rparr>"

definition keep_nav :: "string \<Rightarrow> nav \<Rightarrow> nav" where
  "keep_nav html n = n"

definition loaded_header_page :: page where
  "loaded_header_page =
     run keep_nav [FetchSettled (Responded True (Some ''<ul></ul>''))] (script static_header_page)"

definition full_page :: page where
  "full_page =
     menu_page\<lparr>form := Some ((filled_form [] [] [])\<lparr>submit_listeners := 0\<rparr>),
               feedback := Some [], fade_targets := 3\<rparr>"

definition contact_page :: page where
  "contact_page =
     blank_page\<lparr>form := Some ((filled_form ''Jane'' ''jane@example.com'' ''Hello'')
                                \<lparr>submit_listeners := 0\<rparr>),
                feedback := Some []\<rparr>"

definition started_contact_page :: "fetch_outcome \<Rightarrow> page" where
  "started_contact_page out =
     run keep_nav [FetchSettled out, DOMContentLoaded, Elapse 90] (script contact_page)"

section \<open>Properties\<close>

text \<open>
  The matcher agrees with the meaning of patterns, and \<^verbatim>\<open>/\S+@\S+\.\S+/.test(s)\<close> holds
  exactly when \<open>s\<close> contains an \<^verbatim>\<open>@\<close> and a later dot with stretches of non-space
  characters before, between and after them.
\<close>

lemma in_lang_Seq: "w \<in> lang (Seq r q) \<longleftrightarrow> (\<exists>u v. w = u @ v \<and> u \<in> lang r \<and> v \<in> lang q)"
  by auto

lemma in_lang_AnyChar: "w \<in> lang AnyChar \<longleftrightarrow> (\<exists>c. w = [c])"
  by auto

lemma in_lang_NonSpace: "w \<in> lang NonSpace \<longleftrightarrow> (\<exists>c. w = [c] \<and> \<not> is_space c)"
  by auto

lemma in_lang_Lit: "w \<in> lang (Lit d) \<longleftrightarrow> w = [d]"
  by simp

lemma in_lang_Star: "w \<in> lang (Star r) \<longleftrightarrow> w \<in> star (lang r)"
  by simp

lemma nullable_lang: "nullable r \<longleftrightarrow> [] \<in> lang r"
  by (induction r) (auto intro: star_empty)

lemma star_cons_split:
  assumes "x \<in> star A" and "x = c # w"
  shows "\<exists>u v. w = u @ v \<and> c # u \<in> A \<and> v \<in> star A"
  using assms
proof (induction arbitrary: w rule: star.induct)
  case star_empty
  then show ?case by simp
next
  case (star_more u v)
  show ?case
  proof (cases u)
    case Nil
    with star_more show ?thesis by simp
  next
    case (Cons d u')
    with star_more.prems have "d = c" and "w = u' @ v"
      by simp_all
    with star_more.hyps Cons show ?thesis
      by blast
  qed
qed

lemma star_cons: "c # w \<in> star A \<longleftrightarrow> (\<exists>u v. w = u @ v \<and> c # u \<in> A \<and> v \<in> star A)"
proof
  assume "c # w \<in> star A"
  then show "\<exists>u v. w = u @ v \<and> c # u \<in> A \<and> v \<in> star A"
    by (rule star_cons_split) simp
next
  assume "\<exists>u v. w = u @ v \<and> c # u \<in> A \<and> v \<in> star A"
  then obtain u v where "w = u @ v" "c # u \<in> A" "v \<in> star A"
    by blast
  then have "(c # u) @ v \<in> star A"
    by (intro star_more)
  with \<open>w = u @ v\<close> show "c # w \<in> star A"
    by simp
qed

lemma deriv_lang: "w \<in> lang (deriv c r) \<longleftrightarrow> c # w \<in> lang r"
proof (induction r arbitrary: w)
  case (Seq r q)
  have "c # w \<in> lang (Seq r q) \<longleftrightarrow>
        (\<exists>u v. c # w = u @ v \<and> u \<in> lang r \<and> v \<in> lang q)"
    by (rule in_lang_Seq)
  also have "\<dots> \<longleftrightarrow> ([] \<in> lang r \<and> c # w \<in> lang q)
                 \<or> (\<exists>u' v. w = u' @ v \<and> c # u' \<in> lang r \<and> v \<in> lang q)"
    by (auto simp: Cons_eq_append_conv)
  also have "\<dots> \<longleftrightarrow> (nullable r \<and> w \<in> lang (deriv c q))
                 \<or> (\<exists>u' v. w = u' @ v \<and> u' \<in> lang (deriv c r) \<and> v \<in> lang q)"
    by (simp add: nullable_lang Seq.IH)
  also have "\<dots> \<longleftrightarrow> w \<in> lang (deriv c (Seq r q))"
    by auto
  finally show ?case by simp
next
  case (Star r)
  show ?case
    by (auto simp: star_cons Star.IH)
qed auto

lemma rx_matches_lang: "rx_matches r s \<longleftrightarrow> s \<in> lang r"
  by (induction s arbitrary: r) (simp_all add: nullable_lang deriv_lang)

declare lang.simps [simp del]

lemma star_any: "w \<in> star (lang AnyChar)"
proof (induction w)
  case Nil
  show ?case by (rule star_empty)
next
  case (Cons c w)
  have "[c] \<in> lang AnyChar"
    by (simp add: in_lang_AnyChar)
  then have "[c] @ w \<in> star (lang AnyChar)"
    using Cons by (rule star_more)
  then show ?case by simp
qed

lemma star_nonspace_only: "w \<in> star (lang NonSpace) \<Longrightarrow> \<forall>x\<in>set w. \<not> is_space x"
  by (induction rule: star.induct) (auto simp: in_lang_NonSpace)

lemma star_nonspace_all: "\<forall>x\<in>set w. \<not> is_space x \<Longrightarrow> w \<in> star (lang NonSpace)"
proof (induction w)
  case Nil
  show ?case by (rule star_empty)
next
  case (Cons c w)
  then have "[c] \<in> lang NonSpace" and "w \<in> star (lang NonSpace)"
    by (simp_all add: in_lang_NonSpace)
  then have "[c] @ w \<in> star (lang NonSpace)"
    by (rule star_more)
  then show ?case by simp
qed

lemma lang_plus_nonspace:
  "w \<in> lang (Plus NonSpace) \<longleftrightarrow> w \<noteq> [] \<and> (\<forall>x\<in>set w. \<not> is_space x)"
proof
  assume "w \<in> lang (Plus NonSpace)"
  then obtain u v where "w = u @ v" "u \<in> lang NonSpace" "v \<in> star (lang NonSpace)"
    unfolding Plus_def in_lang_Seq in_lang_Star by blast
  then show "w \<noteq> [] \<and> (\<forall>x\<in>set w. \<not> is_space x)"
    using star_nonspace_only [of v] by (auto simp: in_lang_NonSpace)
next
  assume a: "w \<noteq> [] \<and> (\<forall>x\<in>set w. \<not> is_space x)"
  then obtain c w' where w: "w = [c] @ w'"
    by (cases w) auto
  with a have "[c] \<in> lang NonSpace" "w' \<in> star (lang NonSpace)"
    by (simp_all add: in_lang_NonSpace star_nonspace_all)
  then show "w \<in> lang (Plus NonSpace)"
    unfolding Plus_def in_lang_Seq in_lang_Star w by blast
qed

lemma lang_email_re:
  "w \<in> lang email_re \<longleftrightarrow>
     (\<exists>a b c. w = a @ ''@'' @ b @ ''.'' @ c \<and> a \<noteq> [] \<and> b \<noteq> [] \<and> c \<noteq> []
        \<and> (\<forall>x\<in>set (a @ b @ c). \<not> is_space x))"
proof -
  have "w \<in> lang email_re \<longleftrightarrow>
     (\<exists>a b c. w = a @ ''@'' @ b @ ''.'' @ c \<and> a \<in> lang (Plus NonSpace)
        \<and> b \<in> lang (Plus NonSpace) \<and> c \<in> lang (Plus NonSpace))"
    unfolding email_re_def in_lang_Seq in_lang_Lit by blast
  moreover have "a \<in> lang (Plus NonSpace) \<and> b \<in> lang (Plus NonSpace) \<and> c \<in> lang (Plus NonSpace)
      \<longleftrightarrow> a \<noteq> [] \<and> b \<noteq> [] \<and> c \<noteq> [] \<and> (\<forall>x\<in>set (a @ b @ c). \<not> is_space x)" for a b c
    by (auto simp: lang_plus_nonspace)
  ultimately show ?thesis
    by simp
qed

lemma rx_test_lang:
  "rx_test r s \<longleftrightarrow> (\<exists>pre w post. s = pre @ w @ post \<and> w \<in> lang r)"
proof -
  have "rx_test r s \<longleftrightarrow>
     (\<exists>pre v. s = pre @ v \<and> pre \<in> star (lang AnyChar)
        \<and> (\<exists>w post. v = w @ post \<and> w \<in> lang r \<and> post \<in> star (lang AnyChar)))"
    unfolding rx_test_def rx_matches_lang in_lang_Seq in_lang_Star ..
  then show ?thesis
    by (auto simp: star_any)
qed

lemma rx_test_email:
  "rx_test email_re s \<longleftrightarrow>
     (\<exists>pre a b c post. s = pre @ a @ ''@'' @ b @ ''.'' @ c @ post
        \<and> a \<noteq> [] \<and> b \<noteq> [] \<and> c \<noteq> [] \<and> (\<forall>x\<in>set (a @ b @ c). \<not> is_space x))"
proof
  assume "rx_test email_re s"
  then obtain pre w post where s: "s = pre @ w @ post" and "w \<in> lang email_re"
    unfolding rx_test_lang by blast
  then obtain a b c where "w = a @ ''@'' @ b @ ''.'' @ c" "a \<noteq> []" "b \<noteq> []" "c \<noteq> []"
    "\<forall>x\<in>set (a @ b @ c). \<not> is_space x"
    unfolding lang_email_re by blast
  with s have "s = pre @ a @ ''@'' @ b @ ''.'' @ c @ post \<and> a \<noteq> [] \<and> b \<noteq> [] \<and> c \<noteq> []
      \<and> (\<forall>x\<in>set (a @ b @ c). \<not> is_space x)"
    by simp
  then show "\<exists>pre a b c post. s = pre @ a @ ''@'' @ b @ ''.'' @ c @ post
        \<and> a \<noteq> [] \<and> b \<noteq> [] \<and> c \<noteq> [] \<and> (\<forall>x\<in>set (a @ b @ c). \<not> is_space x)"
    by blast
next
  assume "\<exists>pre a b c post. s = pre @ a @ ''@'' @ b @ ''.'' @ c @ post
        \<and> a \<noteq> [] \<and> b \<noteq> [] \<and> c \<noteq> [] \<and> (\<forall>x\<in>set (a @ b @ c). \<not> is_space x)"
  then obtain pre a b c post where s: "s = pre @ a @ ''@'' @ b @ ''.'' @ c @ post"
    and abc: "a \<noteq> []" "b \<noteq> []" "c \<noteq> []" "\<forall>x\<in>set (a @ b @ c). \<not> is_space x"
    by blast
  from abc have "a @ ''@'' @ b @ ''.'' @ c \<in> lang email_re"
    unfolding lang_email_re by blast
  moreover from s have "s = pre @ (a @ ''@'' @ b @ ''.'' @ c) @ post"
    by simp
  ultimately show "rx_test email_re s"
    unfolding rx_test_lang by blast
qed

lemma write_feedback_Some:
  "feedback s = Some old \<Longrightarrow> write_feedback t s = Inr (s\<lparr>feedback := Some t\<rparr>)"
  by (simp add: write_feedback_def)

lemma write_feedback_None:
  "feedback s = None \<Longrightarrow> write_feedback t s = Inl TypeError"
  by (simp add: write_feedback_def)

lemma funpow_fixed:
  assumes "f x = y" and "f y = y" and "0 < n"
  shows "(f ^^ n) x = y"
proof -
  have "(f ^^ k) y = y" for k
    by (induction k) (simp_all add: assms(2))
  moreover obtain k where "n = Suc k"
    using assms(3) by (cases n) auto
  ultimately show ?thesis
    by (simp add: funpow_swap1 assms(1))
qed

lemma submit_event_rejected:
  assumes "form s = Some f" and "submit_handler s = Inr (s\<lparr>feedback := Some m\<rparr>)"
    and "submit_handler (s\<lparr>feedback := Some m\<rparr>) = Inr (s\<lparr>feedback := Some m\<rparr>)"
    and "0 < submit_listeners f"
  shows "submit_event s = s\<lparr>feedback := Some m\<rparr>"
proof -
  have "submit_once s = s\<lparr>feedback := Some m\<rparr>"
    "submit_once (s\<lparr>feedback := Some m\<rparr>) = s\<lparr>feedback := Some m\<rparr>"
    by (simp_all add: submit_once_def assms(2,3))
  then have "(submit_once ^^ submit_listeners f) s = s\<lparr>feedback := Some m\<rparr>"
    using assms(4) by (rule funpow_fixed)
  then show ?thesis
    by (simp add: submit_event_def assms(1))
qed

text \<open>
  Claim C3. Where the feedback element exists and at least one of the trimmed name,
  e-mail and message is empty, the submit listener writes the fill-in-all-fields message
  and does nothing else: the form keeps its values, no timer is set, and neither the
  e-mail check nor the acknowledgement is reached. A submit event, which runs every
  registered listener, ends in that same page.
\<close>

theorem submit_empty_field:
  assumes "form s = Some f" and "feedback s = Some old"
    and "trim (fvalue (name_field f)) = [] \<or> trim (fvalue (email_field f)) = []
         \<or> trim (fvalue (message_field f)) = []"
  shows "submit_handler s = Inr (s\<lparr>feedback := Some msg_fill\<rparr>)
         \<and> form (s\<lparr>feedback := Some msg_fill\<rparr>) = form s
         \<and> timers (s\<lparr>feedback := Some msg_fill\<rparr>) = timers s
         \<and> (0 < submit_listeners f \<longrightarrow> submit_event s = s\<lparr>feedback := Some msg_fill\<rparr>)"
proof -
  have h: "submit_handler s = Inr (s\<lparr>feedback := Some msg_fill\<rparr>)"
    "submit_handler (s\<lparr>feedback := Some msg_fill\<rparr>) = Inr (s\<lparr>feedback := Some msg_fill\<rparr>)"
    using assms by (auto simp: submit_handler_def write_feedback_def)
  from submit_event_rejected [OF assms(1) h] h(1) show ?thesis
    by simp
qed

theorem submit_empty_field_witness:
  "form (form_page ''Jane'' ''   '' ''Hello'') = Some (filled_form ''Jane'' ''   '' ''Hello'')
   \<and> feedback (form_page ''Jane'' ''   '' ''Hello'') = Some ''''
   \<and> trim (fvalue (email_field (filled_form ''Jane'' ''   '' ''Hello''))) = []
   \<and> 0 < submit_listeners (filled_form ''Jane'' ''   '' ''Hello'')
   \<and> submit_handler (form_page ''Jane'' ''   '' ''Hello'')
       = Inr ((form_page ''Jane'' ''   '' ''Hello'')\<lparr>feedback := Some msg_fill\<rparr>)
   \<and> submit_event (form_page ''Jane'' ''   '' ''Hello'')
       = (form_page ''Jane'' ''   '' ''Hello'')\<lparr>feedback := Some msg_fill\<rparr>"
proof -
  have l: "0 < submit_listeners (filled_form ''Jane'' ''   '' ''Hello'')"
    by (simp add: filled_form_def)
  have f: "form (form_page ''Jane'' ''   '' ''Hello'') = Some (filled_form ''Jane'' ''   '' ''Hello'')"
    by (simp add: form_page_def)
  have b: "feedback (form_page ''Jane'' ''   '' ''Hello'') = Some ''''"
    by (simp add: form_page_def)
  have e: "trim (fvalue (email_field (filled_form ''Jane'' ''   '' ''Hello''))) = []"
    by (simp add: filled_form_def trim_def is_space_def)
  from submit_empty_field [OF f b disjI2 [OF disjI1 [OF e]]] f b e l show ?thesis
    by simp
qed

text \<open>
  Claim C4. Where the feedback element exists, the three trimmed fields are non-empty and
  the trimmed e-mail fails \<^verbatim>\<open>/\S+@\S+\.\S+/\<close>, the listener writes the valid-email
  message and leaves the form and the timers alone; a submit event ends in that same
  page. The empty-field rule comes first: with an empty field the message written is the
  fill-in one, whatever the e-mail is.
\<close>

theorem submit_invalid_email:
  assumes "form s = Some f" and "feedback s = Some old"
  shows "(trim (fvalue (name_field f)) \<noteq> [] \<and> trim (fvalue (email_field f)) \<noteq> []
            \<and> trim (fvalue (message_field f)) \<noteq> []
            \<and> \<not> rx_test email_re (trim (fvalue (email_field f)))
          \<longrightarrow> submit_handler s = Inr (s\<lparr>feedback := Some msg_email\<rparr>)
              \<and> form (s\<lparr>feedback := Some msg_email\<rparr>) = form s
              \<and> timers (s\<lparr>feedback := Some msg_email\<rparr>) = timers s
              \<and> (0 < submit_listeners f \<longrightarrow> submit_event s = s\<lparr>feedback := Some msg_email\<rparr>))
       \<and> (trim (fvalue (name_field f)) = [] \<or> trim (fvalue (email_field f)) = []
            \<or> trim (fvalue (message_field f)) = []
          \<longrightarrow> submit_handler s = Inr (s\<lparr>feedback := Some msg_fill\<rparr>) \<and> msg_fill \<noteq> msg_email)"
proof -
  have "submit_event s = s\<lparr>feedback := Some msg_email\<rparr>"
    if "trim (fvalue (name_field f)) \<noteq> []" "trim (fvalue (email_field f)) \<noteq> []"
      "trim (fvalue (message_field f)) \<noteq> []"
      "\<not> rx_test email_re (trim (fvalue (email_field f)))" "0 < submit_listeners f"
  proof -
    have "submit_handler s = Inr (s\<lparr>feedback := Some msg_email\<rparr>)"
      "submit_handler (s\<lparr>feedback := Some msg_email\<rparr>) = Inr (s\<lparr>feedback := Some msg_email\<rparr>)"
      using assms that by (auto simp: submit_handler_def write_feedback_def)
    then show ?thesis
      using that(5) by (rule submit_event_rejected [OF assms(1)])
  qed
  then show ?thesis
    using assms by (auto simp: submit_handler_def write_feedback_Some msg_fill_def msg_email_def)
qed

theorem submit_invalid_email_witness:
  "form (form_page ''Jane'' ''not-an-email'' ''Hello'')
     = Some (filled_form ''Jane'' ''not-an-email'' ''Hello'')
   \<and> feedback (form_page ''Jane'' ''not-an-email'' ''Hello'') = Some []
   \<and> trim ''Jane'' \<noteq> [] \<and> trim ''not-an-email'' \<noteq> [] \<and> trim ''Hello'' \<noteq> []
   \<and> \<not> rx_test email_re (trim ''not-an-email'')
   \<and> submit_handler (form_page ''Jane'' ''not-an-email'' ''Hello'')
       = Inr ((form_page ''Jane'' ''not-an-email'' ''Hello'')\<lparr>feedback := Some msg_email\<rparr>)
   \<and> submit_event (form_page ''Jane'' ''not-an-email'' ''Hello'')
       = (form_page ''Jane'' ''not-an-email'' ''Hello'')\<lparr>feedback := Some msg_email\<rparr>
   \<and> form (form_page [] ''not-an-email'' ''Hello'')
     = Some (filled_form [] ''not-an-email'' ''Hello'')
   \<and> feedback (form_page [] ''not-an-email'' ''Hello'') = Some []
   \<and> trim [] = []
   \<and> submit_handler (form_page [] ''not-an-email'' ''Hello'')
       = Inr ((form_page [] ''not-an-email'' ''Hello'')\<lparr>feedback := Some msg_fill\<rparr>)"
proof -
  have f: "form (form_page ''Jane'' ''not-an-email'' ''Hello'')
      = Some (filled_form ''Jane'' ''not-an-email'' ''Hello'')"
    and g: "form (form_page [] ''not-an-email'' ''Hello'')
      = Some (filled_form [] ''not-an-email'' ''Hello'')"
    by (simp_all add: form_page_def)
  have b: "feedback (form_page ''Jane'' ''not-an-email'' ''Hello'') = Some []"
    and c: "feedback (form_page [] ''not-an-email'' ''Hello'') = Some []"
    by (simp_all add: form_page_def)
  have t: "trim ''not-an-email'' = ''not-an-email''" "trim ''Jane'' = ''Jane''"
    "trim ''Hello'' = ''Hello''" "trim [] = []"
    by (simp_all add: trim_def is_space_def)
  have r: "\<not> rx_test email_re ''not-an-email''"
    by code_simp
  from submit_invalid_email [OF f b] submit_invalid_email [OF g c] f g b c t r show ?thesis
    by (simp add: filled_form_def)
qed

lemma features_feedback: "feedback (features s) = feedback s"
  by (simp add: features_def setupLazyImages_def setupContactForm_def setupMenuFilter_def
      setupLightbox_def setupFadeOnScroll_def Let_def split: option.splits)

lemma features_timers: "timers (features s) = timers s"
  by (simp add: features_def setupLazyImages_def setupContactForm_def setupMenuFilter_def
      setupLightbox_def setupFadeOnScroll_def Let_def split: option.splits)

lemma run_task_timers: "timers (run_task k s) = timers s"
  by (cases k) (simp_all add: features_timers)

lemma fold_run_task_timers: "timers (fold (\<lambda>p. run_task (snd p)) ps s) = timers s"
  by (induction ps arbitrary: s) (simp_all add: run_task_timers)

lemma fold_run_task_feedback:
  "feedback (fold (\<lambda>p. run_task (snd p)) ps s) =
     (if ClearFeedback \<in> snd ` set ps then map_option (\<lambda>old. []) (feedback s) else feedback s)"
proof (induction ps arbitrary: s)
  case Nil
  show ?case by simp
next
  case (Cons p ps)
  show ?case
  proof (cases "snd p")
    case FallbackInit
    then show ?thesis by (simp add: Cons.IH features_feedback)
  next
    case ClearFeedback
    then show ?thesis by (simp add: Cons.IH option.map_comp comp_def)
  qed
qed

lemma timers_elapse:
  "timers (elapse d s) = map (\<lambda>p. (fst p - d, snd p)) (filter (\<lambda>p. \<not> fst p \<le> d) (timers s))"
  by (simp add: elapse_def Let_def fold_run_task_timers)

lemma feedback_elapse:
  "feedback (elapse d s) =
     (if ClearFeedback \<in> snd ` {p \<in> set (timers s). fst p \<le> d}
      then map_option (\<lambda>old. []) (feedback s) else feedback s)"
  by (simp add: elapse_def Let_def fold_run_task_feedback)

text \<open>
  One run of the submit listener on valid input. Where the feedback element exists, the
  three trimmed fields are non-empty and the trimmed e-mail passes the pattern, the
  listener writes the acknowledgement, resets each field to its default value and sets a
  timer of 6000 ms. When 6000 ms have passed the feedback text is empty, whatever other
  timers were pending; before that the timer is still waiting. A submit event on a form
  with one listener would be one such run; the script leaves the form with two.
\<close>

lemma submit_valid_run:
  assumes "form s = Some f" and "feedback s = Some old"
    and "trim (fvalue (name_field f)) \<noteq> []" and "trim (fvalue (email_field f)) \<noteq> []"
    and "trim (fvalue (message_field f)) \<noteq> []"
    and "rx_test email_re (trim (fvalue (email_field f)))"
  shows "let s' = s\<lparr>feedback := Some msg_thanks, form := Some (form_reset f),
                      timers := timers s @ [(6000, ClearFeedback)]\<rparr>
         in submit_handler s = Inr s'
            \<and> fvalue (name_field (form_reset f)) = defaultValue (name_field f)
            \<and> fvalue (email_field (form_reset f)) = defaultValue (email_field f)
            \<and> fvalue (message_field (form_reset f)) = defaultValue (message_field f)
            \<and> feedback (elapse 6000 s') = Some []
            \<and> (\<forall>d<6000. (6000 - d, ClearFeedback) \<in> set (timers (elapse d s')))
            \<and> (submit_listeners f = 1 \<longrightarrow> submit_event s = s')"
proof -
  have "submit_handler s = Inr (s\<lparr>feedback := Some msg_thanks, form := Some (form_reset f),
                      timers := timers s @ [(6000, ClearFeedback)]\<rparr>)"
    using assms by (simp add: submit_handler_def write_feedback_Some)
  moreover have "fvalue (name_field (form_reset f)) = defaultValue (name_field f)"
    "fvalue (email_field (form_reset f)) = defaultValue (email_field f)"
    "fvalue (message_field (form_reset f)) = defaultValue (message_field f)"
    by (simp_all add: form_reset_def)
  moreover have "feedback (elapse 6000 (s\<lparr>feedback := Some msg_thanks, form := Some (form_reset f),
                      timers := timers s @ [(6000, ClearFeedback)]\<rparr>)) = Some []"
  proof -
    have "ClearFeedback \<in> snd ` {p \<in> set (timers s @ [(6000, ClearFeedback)]). fst p \<le> 6000}"
      by force
    then show ?thesis by (simp add: feedback_elapse)
  qed
  moreover have "\<forall>d<6000. (6000 - d, ClearFeedback) \<in> set (timers (elapse d (s\<lparr>feedback := Some msg_thanks, form := Some (form_reset f),
                      timers := timers s @ [(6000, ClearFeedback)]\<rparr>)))"
    by (simp add: timers_elapse)
  ultimately show ?thesis
    using assms(1) by (simp add: Let_def submit_event_def submit_once_def)
qed

lemma submit_valid_run_example:
  "form (form_page ''Jane'' ''jane@example.com'' ''Hello'')
      = Some (filled_form ''Jane'' ''jane@example.com'' ''Hello'')
   \<and> feedback (form_page ''Jane'' ''jane@example.com'' ''Hello'') = Some ''''
   \<and> trim ''Jane'' \<noteq> [] \<and> trim ''jane@example.com'' \<noteq> [] \<and> trim ''Hello'' \<noteq> []
   \<and> rx_test email_re (trim ''jane@example.com'')
   \<and> (5999::nat) < 6000
   \<and> submit_listeners (filled_form ''Jane'' ''jane@example.com'' ''Hello'') = 1
   \<and> submit_event (form_page ''Jane'' ''jane@example.com'' ''Hello'')
       = blank_page\<lparr>form := Some (filled_form [] [] []), feedback := Some msg_thanks,
                    timers := [(6000, ClearFeedback)]\<rparr>
   \<and> submit_handler (form_page ''Jane'' ''jane@example.com'' ''Hello'')
       = Inr (blank_page\<lparr>form := Some (filled_form [] [] []), feedback := Some msg_thanks,
                         timers := [(6000, ClearFeedback)]\<rparr>)
   \<and> feedback (elapse 6000 (blank_page\<lparr>form := Some (filled_form [] [] []),
         feedback := Some msg_thanks, timers := [(6000, ClearFeedback)]\<rparr>)) = Some []
   \<and> (1, ClearFeedback) \<in> set (timers (elapse 5999 (blank_page\<lparr>form := Some (filled_form [] [] []),
         feedback := Some msg_thanks, timers := [(6000, ClearFeedback)]\<rparr>)))"
proof -
  have f: "form (form_page ''Jane'' ''jane@example.com'' ''Hello'')
      = Some (filled_form ''Jane'' ''jane@example.com'' ''Hello'')"
    by (simp add: form_page_def)
  have b: "feedback (form_page ''Jane'' ''jane@example.com'' ''Hello'') = Some ''''"
    by (simp add: form_page_def)
  have t: "trim ''Jane'' = ''Jane''" "trim ''jane@example.com'' = ''jane@example.com''"
    "trim ''Hello'' = ''Hello''"
    by (simp_all add: trim_def is_space_def)
  have r: "rx_test email_re ''jane@example.com''"
    by code_simp
  have n: "trim (fvalue (name_field (filled_form ''Jane'' ''jane@example.com'' ''Hello''))) \<noteq> []"
    and e: "trim (fvalue (email_field (filled_form ''Jane'' ''jane@example.com'' ''Hello''))) \<noteq> []"
    and m: "trim (fvalue (message_field (filled_form ''Jane'' ''jane@example.com'' ''Hello''))) \<noteq> []"
    and v: "rx_test email_re (trim (fvalue (email_field (filled_form ''Jane'' ''jane@example.com'' ''Hello''))))"
    using t r by (simp_all add: filled_form_def)
  have eq: "(form_page ''Jane'' ''jane@example.com'' ''Hello'')\<lparr>feedback := Some msg_thanks,
          form := Some (form_reset (filled_form ''Jane'' ''jane@example.com'' ''Hello'')),
          timers := timers (form_page ''Jane'' ''jane@example.com'' ''Hello'') @ [(6000, ClearFeedback)]\<rparr>
        = blank_page\<lparr>form := Some (filled_form [] [] []), feedback := Some msg_thanks,
                         timers := [(6000, ClearFeedback)]\<rparr>"
    by (simp add: form_page_def filled_form_def form_reset_def blank_page_def)
  note th = submit_valid_run [OF f b n e m v, unfolded Let_def eq]
  from th have later: "\<forall>d<6000. (6000 - d, ClearFeedback) \<in> set (timers (elapse d
      (blank_page\<lparr>form := Some (filled_form [] [] []), feedback := Some msg_thanks,
                    timers := [(6000, ClearFeedback)]\<rparr>)))"
    by blast
  from later [rule_format, of 5999] have l: "(1, ClearFeedback) \<in> set (timers (elapse 5999
      (blank_page\<lparr>form := Some (filled_form [] [] []), feedback := Some msg_thanks,
                    timers := [(6000, ClearFeedback)]\<rparr>)))"
    by simp
  have one: "submit_listeners (filled_form ''Jane'' ''jane@example.com'' ''Hello'') = 1"
    by (simp add: filled_form_def)
  from th l f b t r one show ?thesis
    by simp
qed

lemma submit_event_double_bound:
  assumes "form s = Some f" and "feedback s = Some old"
    and "trim (fvalue (name_field f)) \<noteq> []" and "trim (fvalue (email_field f)) \<noteq> []"
    and "trim (fvalue (message_field f)) \<noteq> []"
    and "rx_test email_re (trim (fvalue (email_field f)))"
    and "submit_listeners f = 2" and "trim (defaultValue (name_field f)) = []"
  shows "feedback (submit_event s) = Some msg_fill"
proof -
  let ?s1 = "s\<lparr>feedback := Some msg_thanks, form := Some (form_reset f),
               timers := timers s @ [(6000, ClearFeedback)]\<rparr>"
  have "submit_once s = ?s1"
    using assms(1-6) by (simp add: submit_once_def submit_handler_def write_feedback_Some)
  moreover have "submit_once ?s1 = ?s1\<lparr>feedback := Some msg_fill\<rparr>"
    using assms(8) by (simp add: submit_once_def submit_handler_def write_feedback_def form_reset_def)
  ultimately show ?thesis
    using assms(1,7) by (simp add: submit_event_def numeral_2_eq_2)
qed

lemma submit_once_None:
  "form t = Some g \<Longrightarrow> feedback t = None \<Longrightarrow> submit_handler t = Inl TypeError"
  by (simp add: submit_handler_def write_feedback_None Let_def)

lemma submit_once_pow:
  "form t = Some g \<Longrightarrow> feedback t = None \<Longrightarrow>
   (submit_once ^^ n) t = t\<lparr>uncaught := uncaught t @ replicate n TypeError\<rparr>"
proof (induction n)
  case 0
  show ?case by simp
next
  case (Suc n)
  then show ?case
    by (simp add: submit_once_def submit_once_None replicate_append_same)
qed

text \<open>
  Claim C9. With the form present and the feedback element missing,
  \<^verbatim>\<open>setupContactForm\<close> still adds its listener (the early return guards the form only),
  and from then on every run of the listener throws a \<^verbatim>\<open>TypeError\<close>, whatever the
  fields hold; a submit event leaves the page as it was and reports one error per
  listener.
\<close>

theorem submit_without_feedback:
  assumes "form s = Some f" and "feedback s = None"
  shows "form (setupContactForm s) = Some (f\<lparr>submit_listeners := submit_listeners f + 1\<rparr>)
         \<and> feedback (setupContactForm s) = None
         \<and> (\<forall>t g. form t = Some g \<and> feedback t = None \<longrightarrow>
               submit_handler t = Inl TypeError
               \<and> submit_event t = t\<lparr>uncaught := uncaught t @ replicate (submit_listeners g) TypeError\<rparr>)"
  using assms by (simp add: setupContactForm_def submit_once_None submit_once_pow submit_event_def)

theorem submit_without_feedback_witness:
  "form (blank_page\<lparr>form := Some (filled_form ''Jane'' ''jane@example.com'' ''Hello'')\<rparr>)
     = Some (filled_form ''Jane'' ''jane@example.com'' ''Hello'')
   \<and> feedback (blank_page\<lparr>form := Some (filled_form ''Jane'' ''jane@example.com'' ''Hello'')\<rparr>) = None
   \<and> submit_handler
        (setupContactForm (blank_page\<lparr>form := Some (filled_form ''Jane'' ''jane@example.com'' ''Hello'')\<rparr>))
       = Inl TypeError"
proof -
  have f: "form (blank_page\<lparr>form := Some (filled_form ''Jane'' ''jane@example.com'' ''Hello'')\<rparr>)
     = Some (filled_form ''Jane'' ''jane@example.com'' ''Hello'')"
    by simp
  have b: "feedback (blank_page\<lparr>form := Some (filled_form ''Jane'' ''jane@example.com'' ''Hello'')\<rparr>) = None"
    by (simp add: blank_page_def)
  from submit_without_feedback [OF f b] f b show ?thesis
    by simp
qed

lemma set_icon_fields [simp]:
  "data_theme (set_icon i s) = data_theme s" "storage (set_icon i s) = storage s"
  by (simp_all add: set_icon_def)

text \<open>
  Claim C1 as stated asks the second click to restore every page without the attribute.
  A page whose storage already holds the flag (set from another tab, say) has no
  attribute either, and two clicks leave it without the flag.
\<close>

theorem theme_toggle_restore_counterexample:
  "data_theme stale_flag_page = None
   \<and> theme_click (theme_click stale_flag_page) \<noteq> stale_flag_page"
proof -
  have "storage (theme_click (theme_click stale_flag_page)) ''pgc-theme'' = None"
    by (simp add: theme_click_def stale_flag_page_def light_page_def blank_page_def)
  moreover have "storage stale_flag_page ''pgc-theme'' = Some ''dark''"
    by (simp add: stale_flag_page_def)
  ultimately have "theme_click (theme_click stale_flag_page) \<noteq> stale_flag_page"
    by auto
  then show ?thesis
    by (simp add: stale_flag_page_def light_page_def blank_page_def)
qed

text \<open>
  Claim C1, as far as the code goes. On a page without the \<^verbatim>\<open>data-theme\<close> attribute one
  run of the theme listener stores \<^verbatim>\<open>dark\<close> under \<^verbatim>\<open>pgc-theme\<close> and sets the attribute
  to \<^verbatim>\<open>dark\<close>; a second run removes the attribute and the stored flag. The page is then
  the one before the first click whenever that page had no stored flag and its button,
  if any, showed the moon that \<^verbatim>\<open>setupNavbarFeatures\<close> gives a light page.
  A click on a button that carries the one listener of \<^verbatim>\<open>setupNavbarFeatures\<close> is one
  run of it.
\<close>

theorem theme_toggle_two_clicks:
  assumes "data_theme s = None"
  shows "storage (theme_click s) ''pgc-theme'' = Some ''dark''
         \<and> data_theme (theme_click s) = Some ''dark''
         \<and> data_theme (theme_click (theme_click s)) = None
         \<and> storage (theme_click (theme_click s)) ''pgc-theme'' = None
         \<and> (storage s ''pgc-theme'' = None
              \<and> (\<forall>t. themeToggle (nav s) = Some t \<longrightarrow> textContent t = moon_icon)
            \<longrightarrow> theme_click (theme_click s) = s)
         \<and> (\<forall>t. themeToggle (nav s) = Some t \<and> theme_listeners t = 1
            \<longrightarrow> click_themeToggle s = theme_click s
                \<and> click_themeToggle (click_themeToggle s) = theme_click (theme_click s))"
proof -
  have one: "theme_click s = set_icon sun_icon
      (s\<lparr>data_theme := Some ''dark'', storage := (storage s)(''pgc-theme'' \<mapsto> ''dark'')\<rparr>)"
    using assms by (simp add: theme_click_def)
  have two: "theme_click (theme_click s) = set_icon moon_icon
      (s\<lparr>storage := (storage s)(''pgc-theme'' := None)\<rparr>)"
    using assms by (simp add: one theme_click_def set_icon_def option.map_comp comp_def)
  have restore: "theme_click (theme_click s) = s"
    if "storage s ''pgc-theme'' = None"
      and "\<forall>t. themeToggle (nav s) = Some t \<longrightarrow> textContent t = moon_icon"
  proof -
    have "(storage s)(''pgc-theme'' := None) = storage s"
      using that(1) by (metis fun_upd_triv)
    moreover have "map_option (\<lambda>t. t\<lparr>textContent := moon_icon\<rparr>) (themeToggle (nav s))
                   = themeToggle (nav s)"
      using that(2) by (cases "themeToggle (nav s)") auto
    ultimately show ?thesis
      by (simp add: two set_icon_def)
  qed
  have first: "storage (theme_click s) ''pgc-theme'' = Some ''dark''"
    "data_theme (theme_click s) = Some ''dark''"
    by (simp_all add: one)
  have second: "data_theme (theme_click (theme_click s)) = None"
    "storage (theme_click (theme_click s)) ''pgc-theme'' = None"
    using assms by (simp_all add: two)
  have click: "click_themeToggle s = theme_click s"
    "click_themeToggle (click_themeToggle s) = theme_click (theme_click s)"
    if "themeToggle (nav s) = Some t" "theme_listeners t = 1" for t
  proof -
    show c: "click_themeToggle s = theme_click s"
      using that by (simp add: click_themeToggle_def)
    have "themeToggle (nav (theme_click s)) = Some (t\<lparr>textContent := sun_icon\<rparr>)"
      using that(1) by (simp add: one set_icon_def)
    then show "click_themeToggle (click_themeToggle s) = theme_click (theme_click s)"
      using that(2) by (simp add: c click_themeToggle_def [of "theme_click s"])
  qed
  from first second restore click show ?thesis
    by blast
qed

theorem theme_toggle_two_clicks_witness:
  "data_theme light_page = None
   \<and> storage light_page ''pgc-theme'' = None
   \<and> themeToggle (nav light_page) = Some moon_button \<and> textContent moon_button = moon_icon
   \<and> storage (theme_click light_page) ''pgc-theme'' = Some ''dark''
   \<and> data_theme (theme_click light_page) = Some ''dark''
   \<and> theme_click (theme_click light_page) = light_page
   \<and> theme_listeners moon_button = 1
   \<and> click_themeToggle (click_themeToggle light_page) = light_page"
proof -
  have a: "data_theme light_page = None"
    by (simp add: light_page_def blank_page_def)
  have b: "storage light_page ''pgc-theme'' = None"
    by (simp add: light_page_def blank_page_def)
  have c: "themeToggle (nav light_page) = Some moon_button"
    by (simp add: light_page_def)
  have d: "textContent moon_button = moon_icon" "theme_listeners moon_button = 1"
    by (simp_all add: moon_button_def)
  note th = theme_toggle_two_clicks [OF a]
  from th b c d have r: "theme_click (theme_click light_page) = light_page"
    by simp
  from th c d have "click_themeToggle (click_themeToggle light_page)
      = theme_click (theme_click light_page)"
    by blast
  with r have e: "click_themeToggle (click_themeToggle light_page) = light_page"
    by simp
  from th a b c d r e show ?thesis
    by blast
qed

lemma cl_remove_absent [simp]: "t \<notin> set (cl_remove t cs)"
  by (simp add: cl_remove_def)

lemma cl_add_present [simp]: "t \<in> set (cl_add t cs)"
  by (simp add: cl_add_def)

lemma set_cl_remove: "set (cl_remove t cs) = set cs - {t}"
  by (auto simp: cl_remove_def)

lemma set_cl_add: "set (cl_add t cs) = insert t (set cs)"
  by (auto simp: cl_add_def)

lemma cl_remove_add_remove: "cl_remove t (cl_add t (cl_remove t cs)) = cl_remove t cs"
  by (simp add: cl_add_def cl_remove_def)

lemma cl_remove_twice: "cl_remove t (cl_remove t cs) = cl_remove t cs"
  by (simp add: cl_remove_def)

lemma show_item_twice: "show_item f (show_item f it) = show_item f it"
  by (simp add: show_item_def)

lemma chip_click_chips:
  "i < length (chips s) \<Longrightarrow>
   chips (chip_click i s) =
     (map (\<lambda>b. b\<lparr>chip_classList := cl_remove ''active'' (chip_classList b)\<rparr>) (chips s))
       [i := (chips s ! i)\<lparr>chip_classList := cl_add ''active'' (cl_remove ''active'' (chip_classList (chips s ! i)))\<rparr>]"
  by (simp add: chip_click_def Let_def)

lemma chip_click_items:
  "i < length (chips s) \<Longrightarrow>
   items (chip_click i s) = map (show_item (data_filter (chips s ! i))) (items s)"
  by (simp add: chip_click_def Let_def)

lemma chip_click_idem: "chip_click i (chip_click i s) = chip_click i s"
proof (cases "i < length (chips s)")
  case False
  then show ?thesis by (simp add: chip_click_def)
next
  case True
  have len: "i < length (chips (chip_click i s))"
    using True by (simp add: chip_click_chips)
  have c: "chips (chip_click i (chip_click i s)) = chips (chip_click i s)"
    using True
    by (simp add: chip_click_chips [OF len] chip_click_chips [OF True] map_update
        cl_remove_add_remove cl_remove_twice comp_def)
  have f: "data_filter (chips (chip_click i s) ! i) = data_filter (chips s ! i)"
    using True by (simp add: chip_click_chips)
  have it: "items (chip_click i (chip_click i s)) = items (chip_click i s)"
    using True by (simp add: chip_click_items [OF len] chip_click_items [OF True] f show_item_twice comp_def)
  have "chip_click i (chip_click i s) = (chip_click i s)\<lparr>chips := chips (chip_click i (chip_click i s)),
      items := items (chip_click i (chip_click i s))\<rparr>"
    using len by (simp add: chip_click_def [of i "chip_click i s"] Let_def)
  then show ?thesis
    by (simp add: c it)
qed

lemma funpow_idem:
  assumes "\<And>x. f (f x) = f x" and "0 < n"
  shows "(f ^^ n) x = f x"
  using assms(2)
proof (induction n)
  case 0
  then show ?case by simp
next
  case (Suc n)
  then show ?case
    by (cases "n = 0") (simp_all add: assms(1))
qed

lemma click_chip_one:
  "i < length (chips s) \<Longrightarrow> 0 < chip_listeners (chips s ! i) \<Longrightarrow> click_chip i s = chip_click i s"
  by (simp add: click_chip_def funpow_idem [of "chip_click i", OF chip_click_idem])

lemma setupMenuFilter_registers:
  "chips s \<noteq> [] \<Longrightarrow> items s \<noteq> [] \<Longrightarrow> i < length (chips s) \<Longrightarrow>
   chip_listeners (chips (setupMenuFilter s) ! i) = chip_listeners (chips s ! i) + 1"
  by (simp add: setupMenuFilter_def)

text \<open>
  Claim C6. A click on the chip at position \<open>i\<close>, which carries at least one listener
  (\<^verbatim>\<open>setupMenuFilter\<close> adds one to every chip when the chip and item sets are non-empty),
  leaves \<^verbatim>\<open>active\<close> on the clicked chip and on no other, and keeps every other class.
  If the chip's token is \<^verbatim>\<open>all\<close> every item gets the inline display \<^verbatim>\<open>''\<close>; otherwise
  an item gets \<^verbatim>\<open>''\<close> if its category equals the token and \<^verbatim>\<open>none\<close> if not.
\<close>

theorem chip_click_filters:
  assumes "i < length (chips s)" and "0 < chip_listeners (chips s ! i)"
  shows "length (chips (click_chip i s)) = length (chips s)
         \<and> length (items (click_chip i s)) = length (items s)
         \<and> (\<forall>j<length (chips s).
               (''active'' \<in> set (chip_classList (chips (click_chip i s) ! j)) \<longleftrightarrow> j = i)
               \<and> set (chip_classList (chips (click_chip i s) ! j)) - {''active''}
                   = set (chip_classList (chips s ! j)) - {''active''})
         \<and> (\<forall>k<length (items s).
               data_category (items (click_chip i s) ! k) = data_category (items s ! k)
               \<and> display (items (click_chip i s) ! k) =
                   (if data_filter (chips s ! i) = Some ''all'' then []
                    else if data_category (items s ! k) = data_filter (chips s ! i) then []
                    else ''none''))"
proof -
  have e: "click_chip i s = chip_click i s"
    using assms by (rule click_chip_one)
  have a: "\<forall>j<length (chips s).
               (''active'' \<in> set (chip_classList (chips (chip_click i s) ! j)) \<longleftrightarrow> j = i)
               \<and> set (chip_classList (chips (chip_click i s) ! j)) - {''active''}
                   = set (chip_classList (chips s ! j)) - {''active''}"
    using assms(1)
    by (auto simp: chip_click_chips nth_list_update set_cl_remove set_cl_add)
  have b: "\<forall>k<length (items s).
               data_category (items (chip_click i s) ! k) = data_category (items s ! k)
               \<and> display (items (chip_click i s) ! k) =
                   (if data_filter (chips s ! i) = Some ''all'' then []
                    else if data_category (items s ! k) = data_filter (chips s ! i) then []
                    else ''none'')"
    using assms(1) by (simp add: chip_click_items show_item_def)
  have l: "length (chips (chip_click i s)) = length (chips s)"
    "length (items (chip_click i s)) = length (items s)"
    using assms(1) by (simp_all add: chip_click_chips chip_click_items)
  from a b l show ?thesis
    unfolding e by blast
qed

theorem chip_click_filters_witness:
  "Suc 0 < length (chips (setupMenuFilter menu_page))
   \<and> 0 < chip_listeners (chips (setupMenuFilter menu_page) ! Suc 0)
   \<and> map chip_classList (chips (click_chip (Suc 0) (setupMenuFilter menu_page)))
       = [[''chip''], [''chip'', ''active'']]
   \<and> map display (items (click_chip (Suc 0) (setupMenuFilter menu_page))) = [[], ''none'']
   \<and> map display (items (click_chip 0 (click_chip (Suc 0) (setupMenuFilter menu_page)))) = [[], []]"
proof -
  have l: "Suc 0 < length (chips (setupMenuFilter menu_page))"
    by (simp add: setupMenuFilter_def menu_page_def)
  have n: "0 < chip_listeners (chips (setupMenuFilter menu_page) ! Suc 0)"
    by (simp add: setupMenuFilter_def menu_page_def)
  note th = chip_click_filters [OF l n]
  have c: "chips (setupMenuFilter menu_page) =
         [\<lparr>chip_classList = [''chip'', ''active''], data_filter = Some ''all'', chip_listeners = 1\<rparr>,
          \<lparr>chip_classList = [''chip''], data_filter = Some ''drinks'', chip_listeners = 1\<rparr>]"
    and i: "items (setupMenuFilter menu_page) =
         [\<lparr>data_category = Some ''drinks'', display = []\<rparr>,
          \<lparr>data_category = Some ''food'', display = []\<rparr>]"
    by (simp_all add: setupMenuFilter_def menu_page_def)
  have e: "click_chip (Suc 0) (setupMenuFilter menu_page) = chip_click (Suc 0) (setupMenuFilter menu_page)"
    by (simp add: click_chip_def c)
  have c1: "chips (click_chip (Suc 0) (setupMenuFilter menu_page)) =
         [\<lparr>chip_classList = [''chip''], data_filter = Some ''all'', chip_listeners = 1\<rparr>,
          \<lparr>chip_classList = [''chip'', ''active''], data_filter = Some ''drinks'', chip_listeners = 1\<rparr>]"
    by (simp add: e chip_click_def c Let_def cl_remove_def cl_add_def)
  have i1: "items (click_chip (Suc 0) (setupMenuFilter menu_page)) =
         [\<lparr>data_category = Some ''drinks'', display = []\<rparr>,
          \<lparr>data_category = Some ''food'', display = ''none''\<rparr>]"
    by (simp add: e chip_click_def c i Let_def cl_remove_def cl_add_def show_item_def)
  have e0: "click_chip 0 (click_chip (Suc 0) (setupMenuFilter menu_page))
      = chip_click 0 (click_chip (Suc 0) (setupMenuFilter menu_page))"
    by (simp add: click_chip_def [of 0] c1)
  have i0: "map display (items (click_chip 0 (click_chip (Suc 0) (setupMenuFilter menu_page)))) = [[], []]"
    by (simp add: e0 chip_click_def [of 0] c1 i1 Let_def show_item_def)
  from th l n c1 i1 i0 show ?thesis
    by simp
qed

lemma flip_expanded_value:
  "aria_expanded (flip_expanded m) = Some (if aria_expanded m = Some ''true'' then ''false'' else ''true'')"
  by (simp add: flip_expanded_def)

lemma flip_expanded_twice: "aria_expanded (flip_expanded (flip_expanded m)) \<noteq> aria_expanded (flip_expanded m)"
  by (simp add: flip_expanded_def)

lemma cl_toggle_inverts: "t \<in> set (cl_toggle t cs) \<longleftrightarrow> t \<notin> set cs"
  by (simp add: cl_toggle_def)

lemma menu_click_main_once:
  assumes "menuToggle (nav s) = Some m" and "mainNav (nav s) = Some cs"
  shows "menuToggle (nav (menu_click_main s)) = Some (flip_expanded m)"
    and "mainNav (nav (menu_click_main s)) = Some (cl_toggle ''open'' cs)"
  using assms by (simp_all add: menu_click_main_def)

lemma click_menuToggle_single:
  "menuToggle (nav s) = Some m \<Longrightarrow> click_listeners m = [MainListener] \<Longrightarrow>
   click_menuToggle s = menu_click_main s"
  by (simp add: click_menuToggle_def)

lemma loaded_header_page_nav:
  "nav loaded_header_page =
     blank_nav\<lparr>menuToggle := Some \<lparr>aria_expanded = Some ''false'',
                                   click_listeners = [TrailingListener, MainListener]\<rparr>,
               mainNav := Some [''nav-list''],
               navList := NavIsMain\<rparr>"
  by (simp add: loaded_header_page_def run_def script_def init_def loadNavbar_start_def
      trailing_block_def navList_found_def add_menu_listener_def highlight_links_def
      static_header_page_def blank_nav_def blank_page_def fetch_settled_def
      loadNavbar_settle_def loadNavbar_try_def keep_nav_def setupNavbarFeatures_def
      set_icon_def features_def setupLazyImages_def setupContactForm_def setupMenuFilter_def
      setupLightbox_def setupFadeOnScroll_def Let_def)

text \<open>
  Claim C7 at an input where it fails. The page has \<^verbatim>\<open>#menuToggle\<close> and a
  \<^verbatim>\<open>#main-nav\<close> of class \<^verbatim>\<open>nav-list\<close> in its own markup. The statements after the module
  bind their listener to the button when the script runs, the module binds its own once
  the navbar has loaded. One click then runs both: \<^verbatim>\<open>aria-expanded\<close> goes from
  \<^verbatim>\<open>false\<close> to \<^verbatim>\<open>true\<close> and back to \<^verbatim>\<open>false\<close>, while \<^verbatim>\<open>show\<close> and \<^verbatim>\<open>open\<close> are both
  added to the list.
\<close>

theorem menu_toggle_double_bound:
  "map_option click_listeners (menuToggle (nav loaded_header_page))
     = Some [TrailingListener, MainListener]
   \<and> map_option aria_expanded (menuToggle (nav loaded_header_page)) = Some (Some ''false'')
   \<and> map_option aria_expanded (menuToggle (nav (click_menuToggle loaded_header_page)))
     = Some (Some ''false'')
   \<and> mainNav (nav (click_menuToggle loaded_header_page)) = Some [''nav-list'', ''show'', ''open'']"
  by (simp add: loaded_header_page_nav click_menuToggle_def menu_click_main_def
      menu_click_trailing_def flip_expanded_def cl_toggle_def blank_nav_def Let_def)

lemma cl_add_twice: "cl_add t (cl_add t cs) = cl_add t cs"
  by (simp add: cl_add_def)

lemma scroll_handler_idem: "scroll_handler y (scroll_handler y s) = scroll_handler y s"
  by (cases "header (nav s)")
    (simp_all add: scroll_handler_def cl_force_def cl_add_twice cl_remove_twice)

lemma chip_click_listeners:
  "i < length (chips s) \<Longrightarrow> chip_listeners (chips (chip_click i s) ! i) = chip_listeners (chips s ! i)"
  by (simp add: chip_click_chips)

lemma click_chip_idem: "click_chip i (click_chip i s) = click_chip i s"
proof (cases "i < length (chips s) \<and> 0 < chip_listeners (chips s ! i)")
  case False
  then show ?thesis by (auto simp: click_chip_def)
next
  case True
  then have e: "click_chip i s = chip_click i s"
    by (simp add: click_chip_one)
  have "i < length (chips (chip_click i s))"
    "0 < chip_listeners (chips (chip_click i s) ! i)"
    using True by (simp_all add: chip_click_chips)
  then have "click_chip i (chip_click i s) = chip_click i (chip_click i s)"
    by (rule click_chip_one)
  then show ?thesis
    by (simp add: e chip_click_idem)
qed

lemma theme_click_data_theme:
  "data_theme (theme_click s) = (if data_theme s = Some ''dark'' then None else Some ''dark'')"
  by (simp add: theme_click_def)

lemma theme_click_not_idem: "theme_click (theme_click s) \<noteq> theme_click s"
proof
  assume "theme_click (theme_click s) = theme_click s"
  then have "data_theme (theme_click (theme_click s)) = data_theme (theme_click s)"
    by simp
  then show False
    by (simp add: theme_click_data_theme split: if_splits)
qed

lemma menu_click_main_toggle:
  "menuToggle (nav s) = Some m \<Longrightarrow>
   menuToggle (nav (menu_click_main s)) = Some (flip_expanded m)"
  by (simp add: menu_click_main_def)

lemma menu_click_trailing_toggle:
  "menuToggle (nav s) = Some m \<Longrightarrow>
   menuToggle (nav (menu_click_trailing s)) = Some (flip_expanded m)"
  by (simp add: menu_click_trailing_def Let_def split: nav_sel.splits)

lemma menu_click_main_not_idem:
  assumes "menuToggle (nav s) = Some m"
  shows "menu_click_main (menu_click_main s) \<noteq> menu_click_main s"
proof
  assume "menu_click_main (menu_click_main s) = menu_click_main s"
  then have "menuToggle (nav (menu_click_main (menu_click_main s))) = menuToggle (nav (menu_click_main s))"
    by simp
  then have "flip_expanded (flip_expanded m) = flip_expanded m"
    by (simp add: menu_click_main_toggle [OF assms]
        menu_click_main_toggle [OF menu_click_main_toggle [OF assms]])
  then have "aria_expanded (flip_expanded (flip_expanded m)) = aria_expanded (flip_expanded m)"
    by simp
  then show False
    by (simp add: flip_expanded_twice)
qed

lemma menu_click_trailing_not_idem:
  assumes "menuToggle (nav s) = Some m"
  shows "menu_click_trailing (menu_click_trailing s) \<noteq> menu_click_trailing s"
proof
  assume "menu_click_trailing (menu_click_trailing s) = menu_click_trailing s"
  then have "menuToggle (nav (menu_click_trailing (menu_click_trailing s)))
             = menuToggle (nav (menu_click_trailing s))"
    by simp
  then have "flip_expanded (flip_expanded m) = flip_expanded m"
    by (simp add: menu_click_trailing_toggle [OF assms]
        menu_click_trailing_toggle [OF menu_click_trailing_toggle [OF assms]])
  then have "aria_expanded (flip_expanded (flip_expanded m)) = aria_expanded (flip_expanded m)"
    by simp
  then show False
    by (simp add: flip_expanded_twice)
qed

text \<open>
  Claim C8 as stated fails for the theme listener: on a light page the second run
  undoes the first.
\<close>

theorem theme_click_idempotent_counterexample:
  "theme_click (theme_click light_page) \<noteq> theme_click light_page"
proof -
  have "data_theme (theme_click (theme_click light_page)) = None"
    by (simp add: theme_click_data_theme light_page_def blank_page_def)
  moreover have "data_theme (theme_click light_page) = Some ''dark''"
    by (simp add: theme_click_data_theme light_page_def blank_page_def)
  ultimately show ?thesis
    by auto
qed

text \<open>
  Claim C8, as far as the code goes. The chip listener is idempotent, and so is a whole
  click on a chip, however many listeners the chip carries; the scroll listener is
  idempotent at a fixed scroll offset. The theme listener and both menu listeners are
  toggles: on every page (with a menu button, for the menu listeners) two runs differ
  from one run.
\<close>

theorem handlers_idempotence:
  "chip_click i (chip_click i s) = chip_click i s
   \<and> click_chip i (click_chip i s) = click_chip i s
   \<and> scroll_handler y (scroll_handler y s) = scroll_handler y s
   \<and> theme_click (theme_click s) \<noteq> theme_click s
   \<and> (menuToggle (nav s) \<noteq> None \<longrightarrow>
        menu_click_main (menu_click_main s) \<noteq> menu_click_main s
        \<and> menu_click_trailing (menu_click_trailing s) \<noteq> menu_click_trailing s)"
  using chip_click_idem click_chip_idem scroll_handler_idem theme_click_not_idem
    menu_click_main_not_idem menu_click_trailing_not_idem
  by blast

theorem handlers_idempotence_witness:
  "menuToggle (nav static_header_page) \<noteq> None
   \<and> menu_click_main (menu_click_main static_header_page) \<noteq> menu_click_main static_header_page
   \<and> menu_click_trailing (menu_click_trailing static_header_page)
       \<noteq> menu_click_trailing static_header_page
   \<and> chip_click 0 (chip_click 0 menu_page) = chip_click 0 menu_page"
proof -
  have m: "menuToggle (nav static_header_page) \<noteq> None"
    by (simp add: static_header_page_def)
  from handlers_idempotence [of 0 menu_page] handlers_idempotence [of _ static_header_page] m
  show ?thesis
    by blast
qed

lemma features_fields:
  "timers (features s) = timers s"
  "dcl_listeners (features s) = dcl_listeners s"
  "fetch_pending (features s) = fetch_pending s"
  "console (features s) = console s"
  "container (features s) = container s"
  "nav (features s) = nav s"
  "fetches (features s) = fetches s"
  "items (features s) = items s"
  "calls (features s) = calls s @ five"
  "doc_click_listeners (features s) = doc_click_listeners s + 1"
  "chips (features s) =
     (if chips s = [] \<or> items s = [] then chips s
      else map (\<lambda>b. b\<lparr>chip_listeners := chip_listeners b + 1\<rparr>) (chips s))"
  "form (features s) = map_option (\<lambda>f. f\<lparr>submit_listeners := submit_listeners f + 1\<rparr>) (form s)"
  "fade_targets (features s) = fade_targets s"
  "observers (features s)
     = (if fade_targets s = 0 then observers s else observers s @ [fade_targets s])"
  by (simp_all add: features_def setupLazyImages_def setupContactForm_def setupMenuFilter_def
      setupLightbox_def setupFadeOnScroll_def five_def Let_def split: option.splits)

lemma setupNavbarFeatures_fields:
  "timers (setupNavbarFeatures s) = timers s"
  "dcl_listeners (setupNavbarFeatures s) = dcl_listeners s"
  "fetch_pending (setupNavbarFeatures s) = fetch_pending s"
  "console (setupNavbarFeatures s) = console s"
  "container (setupNavbarFeatures s) = container s"
  "fetches (setupNavbarFeatures s) = fetches s"
  "items (setupNavbarFeatures s) = items s"
  "calls (setupNavbarFeatures s) = calls s"
  "doc_click_listeners (setupNavbarFeatures s) = doc_click_listeners s"
  "chips (setupNavbarFeatures s) = chips s"
  "form (setupNavbarFeatures s) = form s"
  "fade_targets (setupNavbarFeatures s) = fade_targets s"
  "observers (setupNavbarFeatures s) = observers s"
  by (simp_all add: setupNavbarFeatures_def set_icon_def add_menu_listener_def
      add_theme_listener_def highlight_links_def Let_def)

lemma script_fields:
  "timers (script s) = timers s"
  "dcl_listeners (script s) = dcl_listeners s + 1"
  "fetch_pending (script s)"
  "console (script s) = console s"
  "container (script s) = container s"
  "fetches (script s) = fetches s + 1"
  "items (script s) = items s"
  "calls (script s) = calls s"
  "doc_click_listeners (script s) = doc_click_listeners s"
  "chips (script s) = chips s"
  "form (script s) = form s"
  "fade_targets (script s) = fade_targets s"
  "observers (script s) = observers s"
  by (simp_all add: script_def init_def loadNavbar_start_def trailing_block_def
      add_menu_listener_def highlight_links_def Let_def)

lemma loadNavbar_try_failed:
  "navbar_fetch_failed out \<Longrightarrow> loadNavbar_try parse out s = Inl (failure_error out)"
  by (cases out) (simp_all add: navbar_fetch_failed_def failure_error_def loadNavbar_try_def)

lemma loadNavbar_settle_failed:
  "navbar_fetch_failed out \<Longrightarrow>
   loadNavbar_settle parse out s = Inr (s\<lparr>console := console s @ [failure_error out]\<rparr>)"
  by (simp add: loadNavbar_settle_def loadNavbar_try_failed)

lemma loadNavbar_settle_resolves: "\<exists>s'. loadNavbar_settle parse out s = Inr s'"
  by (cases "loadNavbar_try parse out s") (simp_all add: loadNavbar_settle_def)

lemma fetch_settled_failed:
  "navbar_fetch_failed out \<Longrightarrow> fetch_pending s \<Longrightarrow>
   fetch_settled parse out s
     = features (s\<lparr>fetch_pending := False, console := console s @ [failure_error out]\<rparr>)"
  by (simp add: fetch_settled_def loadNavbar_settle_failed)

lemma loadNavbar_settle_fields:
  assumes "loadNavbar_settle parse out s = Inr s'"
  shows "timers s' = timers s" "dcl_listeners s' = dcl_listeners s"
    "fetch_pending s' = fetch_pending s" "fetches s' = fetches s" "items s' = items s"
    "calls s' = calls s" "doc_click_listeners s' = doc_click_listeners s"
    "chips s' = chips s" "form s' = form s"
    "fade_targets s' = fade_targets s" "observers s' = observers s"
  using assms
  by (auto simp: loadNavbar_settle_def loadNavbar_try_def setupNavbarFeatures_fields
      split: fetch_outcome.splits if_splits option.splits)

lemma fetch_settled_fields:
  assumes "fetch_pending s"
  shows "timers (fetch_settled parse out s) = timers s"
    "dcl_listeners (fetch_settled parse out s) = dcl_listeners s"
    "\<not> fetch_pending (fetch_settled parse out s)"
    "fetches (fetch_settled parse out s) = fetches s"
    "items (fetch_settled parse out s) = items s"
    "calls (fetch_settled parse out s) = calls s @ five"
    "doc_click_listeners (fetch_settled parse out s) = doc_click_listeners s + 1"
    "chips (fetch_settled parse out s) =
       (if chips s = [] \<or> items s = [] then chips s
        else map (\<lambda>b. b\<lparr>chip_listeners := chip_listeners b + 1\<rparr>) (chips s))"
    "form (fetch_settled parse out s)
       = map_option (\<lambda>f. f\<lparr>submit_listeners := submit_listeners f + 1\<rparr>) (form s)"
    "fade_targets (fetch_settled parse out s) = fade_targets s"
    "observers (fetch_settled parse out s)
       = (if fade_targets s = 0 then observers s else observers s @ [fade_targets s])"
proof -
  obtain s' where s': "loadNavbar_settle parse out (s\<lparr>fetch_pending := False\<rparr>) = Inr s'"
    using loadNavbar_settle_resolves by blast
  have e: "fetch_settled parse out s = features s'"
    using assms by (simp add: fetch_settled_def s')
  note f = loadNavbar_settle_fields [OF s']
  show "timers (fetch_settled parse out s) = timers s"
    "dcl_listeners (fetch_settled parse out s) = dcl_listeners s"
    "\<not> fetch_pending (fetch_settled parse out s)"
    "fetches (fetch_settled parse out s) = fetches s"
    "items (fetch_settled parse out s) = items s"
    "calls (fetch_settled parse out s) = calls s @ five"
    "doc_click_listeners (fetch_settled parse out s) = doc_click_listeners s + 1"
    "chips (fetch_settled parse out s) =
       (if chips s = [] \<or> items s = [] then chips s
        else map (\<lambda>b. b\<lparr>chip_listeners := chip_listeners b + 1\<rparr>) (chips s))"
    "form (fetch_settled parse out s)
       = map_option (\<lambda>f. f\<lparr>submit_listeners := submit_listeners f + 1\<rparr>) (form s)"
    "fade_targets (fetch_settled parse out s) = fade_targets s"
    "observers (fetch_settled parse out s)
       = (if fade_targets s = 0 then observers s else observers s @ [fade_targets s])"
    by (simp_all add: e features_fields f)
qed

lemma fetch_settled_idle: "\<not> fetch_pending s \<Longrightarrow> fetch_settled parse out s = s"
  by (simp add: fetch_settled_def)

lemma dom_content_loaded_one:
  "dcl_listeners s = 1 \<Longrightarrow> dom_content_loaded s = s\<lparr>timers := timers s @ [(90, FallbackInit)]\<rparr>"
  by (simp add: dom_content_loaded_def set_timeout_def)

lemma elapse_fallback_due:
  "timers s = [(90, FallbackInit)] \<Longrightarrow> elapse 90 s = features (s\<lparr>timers := []\<rparr>)"
  by (simp add: elapse_def)

lemma elapse_fallback_early:
  "timers s = [(90, FallbackInit)] \<Longrightarrow> d < 90 \<Longrightarrow>
   elapse d s = s\<lparr>timers := [(90 - d, FallbackInit)]\<rparr>"
  by (simp add: elapse_def)

lemma after_failure:
  assumes "navbar_fetch_failed out" and "timers s0 = []" and "dcl_listeners s0 = 0"
  shows "run parse [FetchSettled out] (script s0)
           = features ((script s0)\<lparr>fetch_pending := False,
                                    console := console s0 @ [failure_error out]\<rparr>)"
    and "run parse [FetchSettled out, DOMContentLoaded] (script s0)
           = (run parse [FetchSettled out] (script s0))\<lparr>timers := [(90, FallbackInit)]\<rparr>"
  using assms
  by (simp_all add: run_def fetch_settled_failed script_fields dom_content_loaded_one
      features_fields)

lemma run_snoc: "run parse (es @ [e]) s = step parse e (run parse es s)"
  by (simp add: run_def)

text \<open>
  Claim C2. When the request fails, \<^verbatim>\<open>loadNavbar\<close> logs the error and writes nothing
  else. After the script has run on a fresh page and the request has failed, the
  container and the header elements are as the script left them, the error is in the
  log, one request has been sent and none is outstanding. When the document then becomes
  ready the five initializers of the fallback run once 90 ms have passed, not before,
  and still nothing has touched the container or sent a second request. The fallback
  also runs when the document is ready before the request fails.
\<close>

theorem navbar_fetch_failure:
  assumes "navbar_fetch_failed out" and "timers s0 = []" and "dcl_listeners s0 = 0"
  shows "loadNavbar_settle parse out t = Inr (t\<lparr>console := console t @ [failure_error out]\<rparr>)
    \<and> container (run parse [FetchSettled out] (script s0)) = container s0
    \<and> nav (run parse [FetchSettled out] (script s0)) = nav (script s0)
    \<and> console (run parse [FetchSettled out] (script s0)) = console s0 @ [failure_error out]
    \<and> fetches (run parse [FetchSettled out] (script s0)) = fetches s0 + 1
    \<and> \<not> fetch_pending (run parse [FetchSettled out] (script s0))
    \<and> (\<forall>d<90. calls (run parse [FetchSettled out, DOMContentLoaded, Elapse d] (script s0))
                 = calls (run parse [FetchSettled out] (script s0)))
    \<and> calls (run parse [FetchSettled out, DOMContentLoaded, Elapse 90] (script s0))
        = calls (run parse [FetchSettled out] (script s0)) @ five
    \<and> container (run parse [FetchSettled out, DOMContentLoaded, Elapse 90] (script s0)) = container s0
    \<and> console (run parse [FetchSettled out, DOMContentLoaded, Elapse 90] (script s0))
        = console s0 @ [failure_error out]
    \<and> fetches (run parse [FetchSettled out, DOMContentLoaded, Elapse 90] (script s0)) = fetches s0 + 1
    \<and> calls (run parse [DOMContentLoaded, Elapse 90] (script s0)) = calls s0 @ five
    \<and> container (run parse [DOMContentLoaded, Elapse 90, FetchSettled out] (script s0)) = container s0"
proof -
  let ?s2 = "run parse [FetchSettled out] (script s0)"
  let ?s3 = "run parse [FetchSettled out, DOMContentLoaded] (script s0)"
  note s2 = after_failure(1) [OF assms, of parse]
  note s3 = after_failure(2) [OF assms, of parse]
  have t3: "timers ?s3 = [(90, FallbackInit)]"
    by (simp add: s3)
  have early: "calls (run parse [FetchSettled out, DOMContentLoaded, Elapse d] (script s0)) = calls ?s2"
    if "d < 90" for d
  proof -
    have "run parse [FetchSettled out, DOMContentLoaded, Elapse d] (script s0) = elapse d ?s3"
      using run_snoc [of parse "[FetchSettled out, DOMContentLoaded]" "Elapse d" "script s0"]
      by simp
    moreover have "calls (elapse d ?s3) = calls ?s3"
      by (simp add: elapse_fallback_early [OF t3 that])
    moreover have "calls ?s3 = calls ?s2"
      by (simp add: s3)
    ultimately show ?thesis
      by simp
  qed
  have due: "run parse [FetchSettled out, DOMContentLoaded, Elapse 90] (script s0)
             = features (?s3\<lparr>timers := []\<rparr>)"
    using run_snoc [of parse "[FetchSettled out, DOMContentLoaded]" "Elapse 90" "script s0"]
    by (simp add: elapse_fallback_due [OF t3])
  have ready_first: "run parse [DOMContentLoaded, Elapse 90] (script s0)
      = features ((script s0)\<lparr>timers := []\<rparr>)"
    using assms(2,3)
    by (simp add: run_def dom_content_loaded_one script_fields elapse_fallback_due)
  have late: "run parse [DOMContentLoaded, Elapse 90, FetchSettled out] (script s0)
      = fetch_settled parse out (run parse [DOMContentLoaded, Elapse 90] (script s0))"
    using run_snoc [of parse "[DOMContentLoaded, Elapse 90]" "FetchSettled out" "script s0"]
    by simp
  have c1: "loadNavbar_settle parse out t = Inr (t\<lparr>console := console t @ [failure_error out]\<rparr>)"
    using assms(1) by (rule loadNavbar_settle_failed)
  have c2: "container ?s2 = container s0" "nav ?s2 = nav (script s0)"
    "console ?s2 = console s0 @ [failure_error out]" "fetches ?s2 = fetches s0 + 1"
    "\<not> fetch_pending ?s2"
    by (simp_all add: s2 features_fields script_fields)
  have c3: "calls (run parse [FetchSettled out, DOMContentLoaded, Elapse 90] (script s0))
        = calls ?s2 @ five"
    "container (run parse [FetchSettled out, DOMContentLoaded, Elapse 90] (script s0)) = container s0"
    "console (run parse [FetchSettled out, DOMContentLoaded, Elapse 90] (script s0))
        = console s0 @ [failure_error out]"
    "fetches (run parse [FetchSettled out, DOMContentLoaded, Elapse 90] (script s0)) = fetches s0 + 1"
    by (simp_all add: due s3 features_fields c2)
  have c4: "calls (run parse [DOMContentLoaded, Elapse 90] (script s0)) = calls s0 @ five"
    by (simp add: ready_first features_fields script_fields)
  have c5: "container (run parse [DOMContentLoaded, Elapse 90, FetchSettled out] (script s0)) = container s0"
    using assms(1)
    by (simp add: late ready_first fetch_settled_failed features_fields script_fields)
  from c1 c2 c3 c4 c5 early show ?thesis
    by blast
qed

theorem navbar_fetch_failure_witness:
  "navbar_fetch_failed (Responded False None) \<and> timers full_page = []
   \<and> dcl_listeners full_page = 0 \<and> (89::nat) < 90
   \<and> loadNavbar_settle keep_nav (Responded False None) full_page
       = Inr (full_page\<lparr>console := [CouldNotLoadNavbar]\<rparr>)
   \<and> container (run keep_nav [FetchSettled (Responded False None)] (script full_page)) = Some []
   \<and> console (run keep_nav [FetchSettled (Responded False None)] (script full_page))
       = [CouldNotLoadNavbar]
   \<and> fetches (run keep_nav [FetchSettled (Responded False None)] (script full_page)) = 1
   \<and> calls (run keep_nav [FetchSettled (Responded False None), DOMContentLoaded, Elapse 89]
               (script full_page))
       = calls (run keep_nav [FetchSettled (Responded False None)] (script full_page))
   \<and> calls (run keep_nav [FetchSettled (Responded False None), DOMContentLoaded, Elapse 90]
               (script full_page))
       = calls (run keep_nav [FetchSettled (Responded False None)] (script full_page)) @ five"
proof -
  have f: "navbar_fetch_failed (Responded False None)"
    by (simp add: navbar_fetch_failed_def)
  have t: "timers full_page = []" and d: "dcl_listeners full_page = 0"
    and c: "console full_page = []" "container full_page = Some []" "fetches full_page = 0"
    by (simp_all add: full_page_def menu_page_def blank_page_def)
  have e: "failure_error (Responded False None) = CouldNotLoadNavbar"
    by (simp add: failure_error_def)
  note th = navbar_fetch_failure [OF f t d, of keep_nav full_page]
  from th have "\<forall>d<90. calls (run keep_nav [FetchSettled (Responded False None),
        DOMContentLoaded, Elapse d] (script full_page))
      = calls (run keep_nav [FetchSettled (Responded False None)] (script full_page))"
    by blast
  then have early: "calls (run keep_nav [FetchSettled (Responded False None),
        DOMContentLoaded, Elapse 89] (script full_page))
      = calls (run keep_nav [FetchSettled (Responded False None)] (script full_page))"
    by simp
  from th early f t d c e show ?thesis
    by simp
qed

lemma both_paths:
  assumes "timers s0 = []" and "dcl_listeners s0 = 0"
  shows "run parse [FetchSettled out, DOMContentLoaded, Elapse 90] (script s0)
           = features ((fetch_settled parse out (script s0))\<lparr>timers := []\<rparr>)"
    and "run parse [DOMContentLoaded, FetchSettled out, Elapse 90] (script s0)
           = features ((fetch_settled parse out ((script s0)\<lparr>timers := [(90, FallbackInit)]\<rparr>))
                          \<lparr>timers := []\<rparr>)"
    and "run parse [DOMContentLoaded, Elapse 90, FetchSettled out] (script s0)
           = fetch_settled parse out (features ((script s0)\<lparr>timers := []\<rparr>))"
proof -
  have p: "fetch_pending (script s0)"
    by (simp add: script_fields)
  have a: "dom_content_loaded (fetch_settled parse out (script s0))
           = (fetch_settled parse out (script s0))\<lparr>timers := [(90, FallbackInit)]\<rparr>"
    using assms by (simp add: dom_content_loaded_one fetch_settled_fields [OF p] script_fields)
  show "run parse [FetchSettled out, DOMContentLoaded, Elapse 90] (script s0)
           = features ((fetch_settled parse out (script s0))\<lparr>timers := []\<rparr>)"
    by (simp add: run_def a elapse_fallback_due)
  have b: "dom_content_loaded (script s0) = (script s0)\<lparr>timers := [(90, FallbackInit)]\<rparr>"
    using assms by (simp add: dom_content_loaded_one script_fields)
  have q: "fetch_pending ((script s0)\<lparr>timers := [(90, FallbackInit)]\<rparr>)"
    by (simp add: script_fields)
  have t: "timers (fetch_settled parse out ((script s0)\<lparr>timers := [(90, FallbackInit)]\<rparr>))
           = [(90, FallbackInit)]"
    by (simp add: fetch_settled_fields [OF q])
  show "run parse [DOMContentLoaded, FetchSettled out, Elapse 90] (script s0)
           = features ((fetch_settled parse out ((script s0)\<lparr>timers := [(90, FallbackInit)]\<rparr>))
                          \<lparr>timers := []\<rparr>)"
    by (simp add: run_def b elapse_fallback_due [OF t])
  show "run parse [DOMContentLoaded, Elapse 90, FetchSettled out] (script s0)
           = fetch_settled parse out (features ((script s0)\<lparr>timers := []\<rparr>))"
    by (simp add: run_def b elapse_fallback_due)
qed

lemma twice_registered:
  assumes "calls c = calls a @ five @ five"
    and "doc_click_listeners c = doc_click_listeners a + 1 + 1"
    and "chips c = (if chips a = [] \<or> items a = [] then chips a
        else map (\<lambda>b. b\<lparr>chip_listeners := chip_listeners b + 1\<rparr>)
               (map (\<lambda>b. b\<lparr>chip_listeners := chip_listeners b + 1\<rparr>) (chips a)))"
    and "form c = map_option (\<lambda>f. f\<lparr>submit_listeners := submit_listeners f + 1\<rparr>)
        (map_option (\<lambda>f. f\<lparr>submit_listeners := submit_listeners f + 1\<rparr>) (form a))"
    and "observers c = (if fade_targets a = 0 then observers a
        else observers a @ [fade_targets a] @ [fade_targets a])"
  shows "calls c = calls a @ five @ five
         \<and> doc_click_listeners c = doc_click_listeners a + 2
         \<and> (chips a \<noteq> [] \<and> items a \<noteq> [] \<longrightarrow>
              map chip_listeners (chips c) = map (\<lambda>b. chip_listeners b + 2) (chips a))
         \<and> map_option submit_listeners (form c) = map_option (\<lambda>f. submit_listeners f + 2) (form a)
         \<and> (0 < fade_targets a \<longrightarrow> observers c = observers a @ [fade_targets a, fade_targets a])"
  using assms by (simp add: comp_def option.map_comp)

text \<open>
  Claim C10. The promise of \<^verbatim>\<open>loadNavbar\<close> is fulfilled whatever the request does, so
  the continuation in \<^verbatim>\<open>init\<close> runs the five initializers when the request settles,
  failed or not. With the fallback after the document is ready they have then run twice,
  in whichever order the two paths come: the document carries two click listeners of the
  lightbox, every chip two listeners more (where chips and items exist), the form
  two submit listeners more, and two observers watch the elements to fade in.
\<close>

theorem loadNavbar_resolves_features_twice:
  assumes "timers s0 = []" and "dcl_listeners s0 = 0"
  shows "(\<exists>s'. loadNavbar_settle parse out t = Inr s')
    \<and> calls (run parse [FetchSettled out] (script s0)) = calls s0 @ five
    \<and> (\<forall>es\<in>set (settle_orders out).
          calls (run parse es (script s0)) = calls s0 @ five @ five
          \<and> doc_click_listeners (run parse es (script s0)) = doc_click_listeners s0 + 2
          \<and> (chips s0 \<noteq> [] \<and> items s0 \<noteq> [] \<longrightarrow>
               map chip_listeners (chips (run parse es (script s0)))
                 = map (\<lambda>b. chip_listeners b + 2) (chips s0))
          \<and> map_option submit_listeners (form (run parse es (script s0)))
              = map_option (\<lambda>f. submit_listeners f + 2) (form s0)
          \<and> (0 < fade_targets s0 \<longrightarrow>
               observers (run parse es (script s0))
                 = observers s0 @ [fade_targets s0, fade_targets s0]))"
proof -
  have p: "fetch_pending (script s0)"
    by (simp add: script_fields)
  have q: "fetch_pending ((script s0)\<lparr>timers := [(90, FallbackInit)]\<rparr>)"
    by (simp add: script_fields)
  have r: "fetch_pending (features ((script s0)\<lparr>timers := []\<rparr>))"
    by (simp add: features_fields script_fields)
  have first: "calls (run parse [FetchSettled out] (script s0)) = calls s0 @ five"
    by (simp add: run_def fetch_settled_fields [OF p] script_fields)
  have o1: "calls (run parse es (script s0)) = calls s0 @ five @ five
          \<and> doc_click_listeners (run parse es (script s0)) = doc_click_listeners s0 + 2
          \<and> (chips s0 \<noteq> [] \<and> items s0 \<noteq> [] \<longrightarrow>
               map chip_listeners (chips (run parse es (script s0)))
                 = map (\<lambda>b. chip_listeners b + 2) (chips s0))
          \<and> map_option submit_listeners (form (run parse es (script s0)))
              = map_option (\<lambda>f. submit_listeners f + 2) (form s0)
          \<and> (0 < fade_targets s0 \<longrightarrow>
               observers (run parse es (script s0))
                 = observers s0 @ [fade_targets s0, fade_targets s0])"
    if "es = [FetchSettled out, DOMContentLoaded, Elapse 90]" for es
    unfolding that both_paths(1) [OF assms]
    by (rule twice_registered)
      (simp_all add: features_fields fetch_settled_fields [OF p] script_fields)
  have o2: "calls (run parse es (script s0)) = calls s0 @ five @ five
          \<and> doc_click_listeners (run parse es (script s0)) = doc_click_listeners s0 + 2
          \<and> (chips s0 \<noteq> [] \<and> items s0 \<noteq> [] \<longrightarrow>
               map chip_listeners (chips (run parse es (script s0)))
                 = map (\<lambda>b. chip_listeners b + 2) (chips s0))
          \<and> map_option submit_listeners (form (run parse es (script s0)))
              = map_option (\<lambda>f. submit_listeners f + 2) (form s0)
          \<and> (0 < fade_targets s0 \<longrightarrow>
               observers (run parse es (script s0))
                 = observers s0 @ [fade_targets s0, fade_targets s0])"
    if "es = [DOMContentLoaded, FetchSettled out, Elapse 90]" for es
    unfolding that both_paths(2) [OF assms]
    by (rule twice_registered)
      (simp_all add: features_fields fetch_settled_fields [OF q] script_fields)
  have o3: "calls (run parse es (script s0)) = calls s0 @ five @ five
          \<and> doc_click_listeners (run parse es (script s0)) = doc_click_listeners s0 + 2
          \<and> (chips s0 \<noteq> [] \<and> items s0 \<noteq> [] \<longrightarrow>
               map chip_listeners (chips (run parse es (script s0)))
                 = map (\<lambda>b. chip_listeners b + 2) (chips s0))
          \<and> map_option submit_listeners (form (run parse es (script s0)))
              = map_option (\<lambda>f. submit_listeners f + 2) (form s0)
          \<and> (0 < fade_targets s0 \<longrightarrow>
               observers (run parse es (script s0))
                 = observers s0 @ [fade_targets s0, fade_targets s0])"
    if "es = [DOMContentLoaded, Elapse 90, FetchSettled out]" for es
    unfolding that both_paths(3) [OF assms]
    by (rule twice_registered)
      (simp_all add: features_fields fetch_settled_fields [OF r] script_fields)
  have "\<exists>s'. loadNavbar_settle parse out t = Inr s'"
    by (rule loadNavbar_settle_resolves)
  with first o1 o2 o3 show ?thesis
    by (auto simp: settle_orders_def)
qed

theorem loadNavbar_resolves_features_twice_witness:
  "timers full_page = [] \<and> dcl_listeners full_page = 0
   \<and> [FetchSettled (Responded True (Some ''<ul></ul>'')), DOMContentLoaded, Elapse 90]
       \<in> set (settle_orders (Responded True (Some ''<ul></ul>'')))
   \<and> [DOMContentLoaded, Elapse 90, FetchSettled Rejected] \<in> set (settle_orders Rejected)
   \<and> chips full_page \<noteq> [] \<and> items full_page \<noteq> [] \<and> 0 < fade_targets full_page
   \<and> observers (run keep_nav [FetchSettled (Responded True (Some ''<ul></ul>'')), DOMContentLoaded,
               Elapse 90] (script full_page)) = [3, 3]
   \<and> calls (run keep_nav [FetchSettled (Responded True (Some ''<ul></ul>'')), DOMContentLoaded,
               Elapse 90] (script full_page)) = five @ five
   \<and> doc_click_listeners (run keep_nav [FetchSettled (Responded True (Some ''<ul></ul>'')),
               DOMContentLoaded, Elapse 90] (script full_page)) = 2
   \<and> map chip_listeners (chips (run keep_nav [FetchSettled (Responded True (Some ''<ul></ul>'')),
               DOMContentLoaded, Elapse 90] (script full_page))) = [2, 2]
   \<and> map_option submit_listeners (form (run keep_nav
               [FetchSettled (Responded True (Some ''<ul></ul>'')), DOMContentLoaded, Elapse 90]
               (script full_page))) = Some 2
   \<and> calls (run keep_nav [DOMContentLoaded, Elapse 90, FetchSettled Rejected] (script full_page))
       = five @ five
   \<and> map_option submit_listeners (form (run keep_nav
               [DOMContentLoaded, Elapse 90, FetchSettled Rejected] (script full_page))) = Some 2"
proof -
  have t: "timers full_page = []" and d: "dcl_listeners full_page = 0"
    and c: "calls full_page = []" "doc_click_listeners full_page = 0"
    and ch: "map chip_listeners (chips full_page) = [0, 0]" "chips full_page \<noteq> []"
      "items full_page \<noteq> []"
    and fo: "map_option submit_listeners (form full_page) = Some 0"
    and fa: "fade_targets full_page = 3" "observers full_page = []"
    by (simp_all add: full_page_def menu_page_def blank_page_def filled_form_def)
  have m: "[FetchSettled (Responded True (Some ''<ul></ul>'')), DOMContentLoaded, Elapse 90]
       \<in> set (settle_orders (Responded True (Some ''<ul></ul>'')))"
    "[DOMContentLoaded, Elapse 90, FetchSettled Rejected] \<in> set (settle_orders Rejected)"
    by (simp_all add: settle_orders_def)
  have two: "map (\<lambda>b. chip_listeners b + 2) (chips full_page) = [2, 2]"
    "map_option (\<lambda>f. submit_listeners f + 2) (form full_page) = Some 2"
    by (simp_all add: full_page_def menu_page_def blank_page_def filled_form_def)
  note ok = loadNavbar_resolves_features_twice [OF t d, of keep_nav "Responded True (Some ''<ul></ul>'')",
      THEN conjunct2, THEN conjunct2, THEN bspec, OF m(1)]
  note ko = loadNavbar_resolves_features_twice [OF t d, of keep_nav Rejected,
      THEN conjunct2, THEN conjunct2, THEN bspec, OF m(2)]
  from ok ko t d c ch(2,3) m two fa show ?thesis
    by simp
qed

lemma fetch_settled_feedback: "feedback (fetch_settled parse out s) = feedback s"
  by (auto simp: fetch_settled_def loadNavbar_settle_def loadNavbar_try_def
      setupNavbarFeatures_def set_icon_def add_menu_listener_def add_theme_listener_def
      highlight_links_def features_feedback Let_def
      split: fetch_outcome.splits option.splits)

lemma script_feedback: "feedback (script s) = feedback s"
  by (simp add: script_def init_def loadNavbar_start_def trailing_block_def
      add_menu_listener_def highlight_links_def Let_def)

lemma started_contact_page_form:
  "form (started_contact_page out)
     = Some ((filled_form ''Jane'' ''jane@example.com'' ''Hello'')\<lparr>submit_listeners := 2\<rparr>)"
  "feedback (started_contact_page out) = Some []"
proof -
  have t: "timers contact_page = []" and d: "dcl_listeners contact_page = 0"
    by (simp_all add: contact_page_def blank_page_def)
  have p: "fetch_pending (script contact_page)"
    by (simp add: script_fields)
  note e = both_paths(1) [OF t d, of keep_nav out]
  show "form (started_contact_page out)
     = Some ((filled_form ''Jane'' ''jane@example.com'' ''Hello'')\<lparr>submit_listeners := 2\<rparr>)"
  proof -
    have "form (started_contact_page out)
        = map_option (\<lambda>f. f\<lparr>submit_listeners := submit_listeners f + 1\<rparr>)
           (map_option (\<lambda>f. f\<lparr>submit_listeners := submit_listeners f + 1\<rparr>) (form contact_page))"
      by (simp add: started_contact_page_def e features_fields fetch_settled_fields [OF p]
          script_fields)
    then show ?thesis
      by (simp add: contact_page_def filled_form_def)
  qed
  have "feedback (started_contact_page out) = feedback contact_page"
    by (simp add: started_contact_page_def e features_feedback fetch_settled_feedback
        script_feedback)
  then show "feedback (started_contact_page out) = Some []"
    by (simp add: contact_page_def)
qed

text \<open>
  Claim C5 at an input where it fails. The page has the contact form, filled in with
  \<^verbatim>\<open>Jane\<close>, \<^verbatim>\<open>jane@example.com\<close> and \<^verbatim>\<open>Hello\<close>, and the feedback element. The script
  runs, the request settles (failed or not), the document becomes ready and 90 ms pass:
  both paths of \<^verbatim>\<open>init\<close> have called \<^verbatim>\<open>setupContactForm\<close>, so the form carries two
  submit listeners. One submit event then runs both. The first writes the
  acknowledgement and resets the form; the second reads the emptied fields and writes
  the fill-in-all-fields message over it, so that is what the event leaves instead of the
  acknowledgement.
\<close>

theorem submit_valid_double_bound:
  "map_option submit_listeners (form (started_contact_page Rejected)) = Some 2
   \<and> map_option (\<lambda>f. (fvalue (name_field f), fvalue (email_field f), fvalue (message_field f)))
        (form (started_contact_page Rejected)) = Some (''Jane'', ''jane@example.com'', ''Hello'')
   \<and> rx_test email_re (trim ''jane@example.com'')
   \<and> feedback (run keep_nav [Submit] (started_contact_page Rejected)) = Some msg_fill
   \<and> feedback (run keep_nav [Submit] (started_contact_page (Responded True (Some ''<ul></ul>''))))
       = Some msg_fill
   \<and> msg_fill \<noteq> msg_thanks"
proof -
  have t: "trim ''Jane'' = ''Jane''" "trim ''jane@example.com'' = ''jane@example.com''"
    "trim ''Hello'' = ''Hello''" "trim [] = []"
    by (simp_all add: trim_def is_space_def)
  have r: "rx_test email_re ''jane@example.com''"
    by code_simp
  have sub: "feedback (run keep_nav [Submit] (started_contact_page out)) = Some msg_fill" for out
  proof -
    have "feedback (submit_event (started_contact_page out)) = Some msg_fill"
      by (rule submit_event_double_bound [OF started_contact_page_form [of out]])
        (simp_all add: filled_form_def t r)
    then show ?thesis
      by (simp add: run_def)
  qed
  have "msg_fill \<noteq> msg_thanks"
    by (simp add: msg_fill_def msg_thanks_def)
  with sub t r show ?thesis
    by (simp add: started_contact_page_form filled_form_def)
qed

end
